theory Spec2Isabelle
  imports Main
begin

section \<open>PyRTL wire vectors: a shallow embedding of \<^verbatim>\<open>pyrtl/wirevector.py\<close>\<close>

text \<open>
  The module builds a netlist as a side effect of constructing wire vectors and applying
  operators to them. Wire vectors are Python objects compared by identity and, for
  registers, mutated after construction, so the model keeps them in an explicit store:
  a reference is an index into the list \<open>heap\<close>, allocation appends. Python integers are
  modelled by \<open>int\<close>; an integer handed to \<^verbatim>\<open>Const\<close>, which tests its type, is a
  \<open>pynum\<close>. Every \<^verbatim>\<open>raise\<close> is a value \<open>Inl e\<close>; the state
  reached when the exception leaves the function is returned beside it, as the mutations
  made before a \<^verbatim>\<open>raise\<close> stay in Python.
\<close>

subsection \<open>Errors\<close>

datatype error =
    PyrtlError string
  | AssertionError
  | TypeError
  | IndexError
  | ValueError
  | UnboundLocalError

subsection \<open>Python built-ins used by the module\<close>

text \<open>
  The module is Python 2 (\<^verbatim>\<open>basestring\<close>, \<^verbatim>\<open>string.split\<close>), which has two integer
  types: \<^verbatim>\<open>int\<close>, a machine word, and \<^verbatim>\<open>long\<close>, unbounded. A result too large for a
  machine word is a \<^verbatim>\<open>long\<close>, and so is a literal written with the suffix \<^verbatim>\<open>L\<close>,
  whatever its size. \<^verbatim>\<open>isinstance(x, int)\<close> is false of a \<^verbatim>\<open>long\<close>. Where the module
  tests the type of an integer it was given, the integer carries its type.
\<close>

datatype pynum = PyInt int | PyLong int

fun num_of :: "pynum \<Rightarrow> int" where
  "num_of (PyInt i) = i"
| "num_of (PyLong i) = i"

fun is_int :: "pynum \<Rightarrow> bool" where
  "is_int (PyInt _) = True"
| "is_int (PyLong _) = False"

text \<open>\<^verbatim>\<open>str(n)\<close> for integers: decimal digits, a leading minus sign for negatives.\<close>

definition digit_char :: "nat \<Rightarrow> char" where
  "digit_char d = char_of (48 + d)"

function str_nat :: "nat \<Rightarrow> string" where
  "str_nat n = (if n < 10 then [digit_char n] else str_nat (n div 10) @ [digit_char (n mod 10)])"
  by pat_completeness auto
termination
  by (relation "measure id") auto

declare str_nat.simps [simp del]

definition str_int :: "int \<Rightarrow> string" where
  "str_int i = (if i < 0 then ''-'' @ str_nat (nat (- i)) else str_nat (nat i))"

text \<open>\<^verbatim>\<open>bin(n)\<close>: the prefix \<^verbatim>\<open>0b\<close> (after the sign) and the binary digits, one digit for 0.\<close>

function bin_digits :: "nat \<Rightarrow> string" where
  "bin_digits n = (if n < 2 then [digit_char n] else bin_digits (n div 2) @ [digit_char (n mod 2)])"
  by pat_completeness auto
termination
  by (relation "measure id") auto

declare bin_digits.simps [simp del]

definition bin :: "int \<Rightarrow> string" where
  "bin i = (if i < 0 then ''-0b'' @ bin_digits (nat (- i)) else ''0b'' @ bin_digits (nat i))"

text \<open>\<^verbatim>\<open>str.lower()\<close> on a byte string: the letters A to Z are moved to a to z.\<close>

definition lower_char :: "char \<Rightarrow> char" where
  "lower_char c =
     (if 65 \<le> (of_char c :: nat) \<and> (of_char c :: nat) \<le> 90 then char_of ((of_char c :: nat) + 32) else c)"

definition lower :: "string \<Rightarrow> string" where
  "lower nm = map lower_char nm"

text \<open>
  Indexing a Python list by an integer (negative indices count from the end, an index out
  of range raises \<^verbatim>\<open>IndexError\<close>) or by a slice \<^verbatim>\<open>start:stop:step\<close>, each part
  optional. The slice is resolved against the length as \<^verbatim>\<open>slice.indices\<close> does, and the
  elements are those at \<^verbatim>\<open>range(start, stop, step)\<close>.
\<close>

datatype index = Idx int | Slice "int option" "int option" "int option"

definition slice_bound :: "int \<Rightarrow> int \<Rightarrow> int \<Rightarrow> int \<Rightarrow> int option \<Rightarrow> int" where
  "slice_bound n lo hi dflt b =
     (case b of
        None \<Rightarrow> dflt
      | Some v \<Rightarrow> (if v < 0 then max (v + n) lo else min v hi))"

definition range_len :: "int \<Rightarrow> int \<Rightarrow> int \<Rightarrow> nat" where
  "range_len start stop step =
     (if 0 < step then (if start < stop then nat ((stop - start - 1) div step + 1) else 0)
      else (if stop < start then nat ((start - stop - 1) div (- step) + 1) else 0))"

definition py_getitem :: "'a list \<Rightarrow> index \<Rightarrow> error + 'a list" where
  "py_getitem xs item =
     (let n = int (length xs) in
      case item of
        Idx i \<Rightarrow>
          (if - n \<le> i \<and> i < n then Inr [xs ! nat (if i < 0 then i + n else i)]
           else Inl IndexError)
      | Slice start stop step \<Rightarrow>
          (let st = (case step of None \<Rightarrow> 1 | Some k \<Rightarrow> k) in
           if st = 0 then Inl ValueError
           else
             let lo = (if st < 0 then - 1 else 0);
                 hi = (if st < 0 then n - 1 else n);
                 a = slice_bound n lo hi (if st < 0 then hi else lo) start;
                 b = slice_bound n lo hi (if st < 0 then lo else hi) stop
             in Inr (map (\<lambda>k. xs ! nat (a + int k * st)) [0..<range_len a b st])))"

subsection \<open>Wire vectors, logic nets and the block\<close>

text \<open>
  The classes of the module. The signed variants override \<^verbatim>\<open>extended\<close> only;
  \<^verbatim>\<open>Input\<close>, \<^verbatim>\<open>Const\<close> and \<^verbatim>\<open>Register\<close> (and their signed subclasses) override
  \<^verbatim>\<open>__ilshift__\<close>.
\<close>

datatype wclass =
    WireVector | Input | Output | Const | Register
  | SignedWireVector | SignedInput | SignedOutput | SignedConst | SignedRegister

fun is_signed :: "wclass \<Rightarrow> bool" where
  "is_signed SignedWireVector = True"
| "is_signed SignedInput = True"
| "is_signed SignedOutput = True"
| "is_signed SignedConst = True"
| "is_signed SignedRegister = True"
| "is_signed _ = False"

fun is_Input :: "wclass \<Rightarrow> bool" where
  "is_Input Input = True"
| "is_Input SignedInput = True"
| "is_Input _ = False"

fun is_Const :: "wclass \<Rightarrow> bool" where
  "is_Const Const = True"
| "is_Const SignedConst = True"
| "is_Const _ = False"

fun is_Register :: "wclass \<Rightarrow> bool" where
  "is_Register Register = True"
| "is_Register SignedRegister = True"
| "is_Register _ = False"

text \<open>
  A wire vector object: its class and its attributes. \<open>val\<close> is set by \<^verbatim>\<open>Const\<close> only and
  \<open>reg_in\<close> by \<^verbatim>\<open>Register\<close> only; \<open>bitwidth\<close> is \<^verbatim>\<open>None\<close> when the constructor was given
  none.
\<close>

record wirevector =
  cls :: wclass
  name :: string
  bitwidth :: "int option"
  val :: "int option"
  reg_in :: "nat option"

text \<open>
  \<^verbatim>\<open>LogicNet(op, op_param, args, dests)\<close>: \<open>op\<close> is a one-character string or \<^verbatim>\<open>None\<close>
  (a connect net), \<open>op_param\<close> is \<^verbatim>\<open>None\<close> or a tuple of integers, \<open>args\<close> and \<open>dests\<close>
  are tuples of wire vectors (references).
\<close>

record LogicNet =
  op :: "char option"
  op_param :: "int list option"
  args :: "nat list"
  dests :: "nat list"

text \<open>
  Modelled from the spec: class \<^verbatim>\<open>Block\<close> (module \<^verbatim>\<open>block\<close>) is not among the sources.
  The spec gives the netlist a set of wire vectors keyed by unique name, an ordered
  collection of logic nodes, and monotonic counters for temporary-wire names, constant
  names and memory identities. Registering a wire vector fails with a naming-conflict
  error on collision; registering a logic node appends it. The counters are read through
  the class (\<^verbatim>\<open>Block.next_tempvar_name()\<close>), so they live beside the block in the state.
\<close>

record Block =
  wirevector_by_name :: "(string \<times> nat) list"
  logic :: "LogicNet list"

record state =
  heap :: "wirevector list"
  block :: Block
  tempvar_count :: nat
  constvar_count :: nat
  memid_count :: nat

definition empty_state :: state where
  "empty_state =
     \<lparr>heap = [], block = \<lparr>wirevector_by_name = [], logic = []\<rparr>,
      tempvar_count = 0, constvar_count = 0, memid_count = 0\<rparr>"

type_synonym 'a result = "(error + 'a) \<times> state"

definition ret :: "'a \<Rightarrow> state \<Rightarrow> 'a result" where
  "ret x s = (Inr x, s)"

definition raise :: "error \<Rightarrow> state \<Rightarrow> 'a result" where
  "raise e s = (Inl e, s)"

definition and_then :: "(state \<Rightarrow> 'a result) \<Rightarrow> ('a \<Rightarrow> state \<Rightarrow> 'b result) \<Rightarrow> state \<Rightarrow> 'b result" where
  "and_then m f s = (case m s of (Inl e, s') \<Rightarrow> (Inl e, s') | (Inr x, s') \<Rightarrow> f x s')"

text \<open>
  Modelled from the spec: \<^verbatim>\<open>Block.next_tempvar_name\<close>, \<^verbatim>\<open>Block.next_constvar_name\<close> and
  \<^verbatim>\<open>Block.next_memid\<close> are not among the sources. Each returns a value made from its
  counter and advances the counter; temporary names start with \<^verbatim>\<open>tmp\<close>.
\<close>

definition next_tempvar_name :: "state \<Rightarrow> string \<times> state" where
  "next_tempvar_name s =
     (''tmp'' @ str_nat (tempvar_count s), s\<lparr>tempvar_count := tempvar_count s + 1\<rparr>)"

definition next_constvar_name :: "int \<Rightarrow> state \<Rightarrow> string \<times> state" where
  "next_constvar_name v s =
     (''const'' @ str_nat (constvar_count s) @ ''_'' @ str_int v,
      s\<lparr>constvar_count := constvar_count s + 1\<rparr>)"

definition next_memid :: "state \<Rightarrow> nat \<times> state" where
  "next_memid s = (memid_count s, s\<lparr>memid_count := memid_count s + 1\<rparr>)"

text \<open>
  Modelled from the spec: \<^verbatim>\<open>Block.add_wirevector\<close> and \<^verbatim>\<open>Block.add_net\<close> are not among
  the sources. The first registers the wire under its name and fails on a name that is
  taken; the second appends the node to the ordered collection.
\<close>

definition add_wirevector :: "Block \<Rightarrow> string \<Rightarrow> nat \<Rightarrow> error + Block" where
  "add_wirevector b nm r =
     (if nm \<in> fst ` set (wirevector_by_name b)
      then Inl (PyrtlError ''naming conflict'')
      else Inr (b\<lparr>wirevector_by_name := wirevector_by_name b @ [(nm, r)]\<rparr>))"

definition add_net :: "LogicNet \<Rightarrow> state \<Rightarrow> unit result" where
  "add_net net s = (Inr (), s\<lparr>block := (block s)\<lparr>logic := logic (block s) @ [net]\<rparr>\<rparr>)"

subsection \<open>\<^verbatim>\<open>WireVector.__init__\<close>\<close>

text \<open>
  The constructor of every wire class (the subclasses' constructors pass their arguments
  on to it). The \<^verbatim>\<open>block\<close> argument is left at its default, the working block, as the
  module asks. The object is allocated when the constructor returns normally: an object
  whose constructor raised is never seen. The bitwidth is of type \<^verbatim>\<open>int\<close>, so the
  constructor's \<^verbatim>\<open>isinstance(bitwidth, int)\<close> test passes.
\<close>

definition WireVector_init :: "wclass \<Rightarrow> int option \<Rightarrow> string option \<Rightarrow> state \<Rightarrow> nat result" where
  "WireVector_init c bw nm s =
     (let (nm', s1) = (case nm of None \<Rightarrow> next_tempvar_name s | Some n \<Rightarrow> (n, s)) in
      if lower nm' \<in> set [''clk'', ''clock'']
      then raise (PyrtlError ''Clock signals should never be explicitly instantiated'') s1
      else if (case bw of None \<Rightarrow> False | Some b \<Rightarrow> b \<le> 0)
      then raise (PyrtlError (''error attempting to create wirevector with bitwidth of length \"''
                    @ str_int (the bw) @ ''\", all bitwidths must be > 0'')) s1
      else
        (let r = length (heap s1) in
         case add_wirevector (block s1) nm' r of
           Inl e \<Rightarrow> raise e s1
         | Inr b \<Rightarrow>
             ret r (s1\<lparr>heap := heap s1 @ [\<lparr>cls = c, name = nm', bitwidth = bw, val = None, reg_in = None\<rparr>],
                       block := b\<rparr>)))"

definition len :: "nat \<Rightarrow> state \<Rightarrow> int result" where
  "len w s = (case bitwidth (heap s ! w) of None \<Rightarrow> raise TypeError s | Some b \<Rightarrow> ret b s)"

subsection \<open>\<^verbatim>\<open>Const\<close>\<close>

text \<open>
  \<^verbatim>\<open>Const.__init__\<close> for an integer value (the branch for a string literal in Verilog
  style is skipped by its own \<^verbatim>\<open>isinstance\<close> test). The name is requested before any
  check. The local \<^verbatim>\<open>num\<close> is bound, and a missing width inferred, only under
  \<^verbatim>\<open>isinstance(val, int)\<close>: for a \<^verbatim>\<open>long\<close> value \<^verbatim>\<open>num\<close> stays unbound and the width
  stays as given. The width must then be an \<^verbatim>\<open>int\<close>; the first use of an unbound
  \<^verbatim>\<open>num\<close> raises \<^verbatim>\<open>UnboundLocalError\<close>. \<^verbatim>\<open>num >> bitwidth\<close> on a nonnegative shift
  is the floor division by \<open>2 ^ bitwidth\<close>. The attribute \<open>val\<close> is stored after the base
  constructor has returned.
\<close>

definition bitwidth_type_error :: "pynum option \<Rightarrow> error" where
  "bitwidth_type_error bw =
     PyrtlError (''error, bitwidth must be from type int, instead Const was passed \"''
       @ (case bw of None \<Rightarrow> ''None'' | Some b \<Rightarrow> str_int (num_of b))
       @ ''\" of type <type '' @ [CHR 0x27]
       @ (case bw of None \<Rightarrow> ''NoneType'' | Some _ \<Rightarrow> ''long'')
       @ [CHR 0x27] @ ''>'')"

definition Const_init :: "wclass \<Rightarrow> pynum \<Rightarrow> pynum option \<Rightarrow> state \<Rightarrow> nat result" where
  "Const_init c v bw s =
     (let (nm, s1) = next_constvar_name (num_of v) s;
          num = (if is_int v then Some (num_of v) else None);
          bitwidth' = (if is_int v \<and> bw = None
                       then Some (PyInt (int (length (bin (num_of v))) - 2)) else bw)
      in
      case bitwidth' of
        None \<Rightarrow> raise (bitwidth_type_error bitwidth') s1
      | Some (PyLong _) \<Rightarrow> raise (bitwidth_type_error bitwidth') s1
      | Some (PyInt b) \<Rightarrow>
          (case num of
             None \<Rightarrow> raise UnboundLocalError s1
           | Some n \<Rightarrow>
               if n < 0
               then raise (PyrtlError ''error, Const is only for unsigned numbers and must be positive'') s1
               else if b < 0
               then raise (PyrtlError ''error, you are trying a negative bitwidth? awesome but wrong'') s1
               else if n div 2 ^ nat b \<noteq> 0
               then raise (PyrtlError (''error constant \"'' @ str_int n @ ''\" cannot fit in the specified ''
                             @ str_int b @ '' bits'')) s1
               else
                 and_then (WireVector_init c (Some b) (Some nm))
                   (\<lambda>r s2. ret r (s2\<lparr>heap := (heap s2)[r := (heap s2 ! r)\<lparr>val := Some n\<rparr>]\<rparr>)) s1))"

subsection \<open>Bit selection and concatenation\<close>

text \<open>
  \<^verbatim>\<open>WireVector.__getitem__\<close>: the positions \<open>0 .. bitwidth - 1\<close> are indexed by the integer
  or the slice, a wire as wide as the selection is made, and a net \<^verbatim>\<open>'s'\<close> with the
  selected positions as its parameter is added.
\<close>

definition WireVector_getitem :: "nat \<Rightarrow> index \<Rightarrow> state \<Rightarrow> nat result" where
  "WireVector_getitem self item s =
     (case bitwidth (heap s ! self) of
        None \<Rightarrow> raise AssertionError s
      | Some bw \<Rightarrow>
          (let allindex = [0..bw - 1] in
           case py_getitem allindex item of
             Inl e \<Rightarrow> raise e s
           | Inr selectednums \<Rightarrow>
               and_then (WireVector_init WireVector (Some (int (length selectednums))) None)
                 (\<lambda>outwire.
                    and_then (add_net \<lparr>op = Some CHR ''s'', op_param = Some selectednums,
                                       args = [self], dests = [outwire]\<rparr>)
                      (\<lambda>_. ret outwire)) s))"

text \<open>\<^verbatim>\<open>[len(arg) for arg in args]\<close>; \<^verbatim>\<open>len\<close> of a wire without bitwidth raises.\<close>

fun lens :: "wirevector list \<Rightarrow> nat list \<Rightarrow> error + int list" where
  "lens h [] = Inr []"
| "lens h (a # as) =
     (case bitwidth (h ! a) of
        None \<Rightarrow> Inl TypeError
      | Some n \<Rightarrow> (case lens h as of Inl e \<Rightarrow> Inl e | Inr ns \<Rightarrow> Inr (n # ns)))"

definition concat_wv :: "nat list \<Rightarrow> state \<Rightarrow> nat result" where
  "concat_wv as s =
     (if length as \<le> 0 then raise (PyrtlError []) s
      else if length as = 1 then ret (as ! 0) s
      else
        (case lens (heap s) as of
           Inl e \<Rightarrow> raise e s
         | Inr ws \<Rightarrow>
             (let final_width = sum_list ws in
              and_then (WireVector_init WireVector (Some final_width) None)
                (\<lambda>outwire.
                   and_then (add_net \<lparr>op = Some CHR ''c'', op_param = None,
                                      args = as, dests = [outwire]\<rparr>)
                     (\<lambda>_. ret outwire)) s)))"

subsection \<open>Extension\<close>

text \<open>
  \<^verbatim>\<open>_extend_with_bit\<close>, and its three callers. Python evaluates the argument
  \<^verbatim>\<open>self[-1]\<close>, or \<^verbatim>\<open>Const(0, bitwidth=1)\<close>, before the call.
\<close>

definition extend_with_bit :: "nat \<Rightarrow> int \<Rightarrow> nat \<Rightarrow> state \<Rightarrow> nat result" where
  "extend_with_bit self bw extbit s =
     (case bitwidth (heap s ! self) of
        None \<Rightarrow> raise TypeError s
      | Some k \<Rightarrow>
          (let numext = bw - k in
           if numext = 0 then ret self s
           else if numext < 0
           then raise (PyrtlError ''error, zero_extended cannot reduce the number of bits'') s
           else
             and_then (WireVector_init WireVector (Some numext) None)
               (\<lambda>extvector.
                  and_then (add_net \<lparr>op = Some CHR ''s'', op_param = Some (replicate (nat numext) 0),
                                     args = [extbit], dests = [extvector]\<rparr>)
                    (\<lambda>_. concat_wv [extvector, self])) s))"

definition sign_extended :: "nat \<Rightarrow> int \<Rightarrow> state \<Rightarrow> nat result" where
  "sign_extended self bw =
     and_then (WireVector_getitem self (Idx (- 1))) (\<lambda>extbit. extend_with_bit self bw extbit)"

definition zero_extended :: "nat \<Rightarrow> int \<Rightarrow> state \<Rightarrow> nat result" where
  "zero_extended self bw =
     and_then (Const_init Const (PyInt 0) (Some (PyInt 1))) (\<lambda>extbit. extend_with_bit self bw extbit)"

text \<open>\<^verbatim>\<open>extended\<close> is overridden by the five signed classes.\<close>

definition extended :: "nat \<Rightarrow> int \<Rightarrow> state \<Rightarrow> nat result" where
  "extended self bw s =
     (if is_signed (cls (heap s ! self)) then sign_extended self bw s
      else zero_extended self bw s)"

subsection \<open>Operators\<close>

text \<open>An operand is a wire vector or a Python integer, which is first made a \<^verbatim>\<open>Const\<close>.\<close>

datatype operand = Wire nat | IntVal pynum

definition logicop :: "nat \<Rightarrow> operand \<Rightarrow> char \<Rightarrow> state \<Rightarrow> nat result" where
  "logicop self other opc =
     and_then (case other of Wire w \<Rightarrow> ret w | IntVal i \<Rightarrow> Const_init Const i None)
       (\<lambda>b0.
          and_then (len self) (\<lambda>la.
          and_then (len b0) (\<lambda>lb.
          and_then
            (if la < lb then and_then (extended self lb) (\<lambda>a'. ret (a', b0))
             else if lb < la then and_then (extended b0 la) (\<lambda>b'. ret (self, b'))
             else ret (self, b0))
            (\<lambda>(a, b).
               and_then (len a) (\<lambda>l.
                 (let resultlen = l;
                      resultlen = (if opc = CHR ''+'' \<or> opc = CHR ''-'' then resultlen + 1 else resultlen);
                      resultlen = (if opc = CHR ''*'' then resultlen * 2 else resultlen)
                  in and_then (WireVector_init WireVector (Some resultlen) None)
                       (\<lambda>s'.
                          and_then (add_net \<lparr>op = Some opc, op_param = None,
                                             args = [a, b], dests = [s']\<rparr>)
                            (\<lambda>_. ret s'))))))))"

definition WireVector_and :: "nat \<Rightarrow> operand \<Rightarrow> state \<Rightarrow> nat result" where
  "WireVector_and self other = logicop self other CHR ''&''"

definition WireVector_or :: "nat \<Rightarrow> operand \<Rightarrow> state \<Rightarrow> nat result" where
  "WireVector_or self other = logicop self other CHR ''|''"

definition WireVector_xor :: "nat \<Rightarrow> operand \<Rightarrow> state \<Rightarrow> nat result" where
  "WireVector_xor self other = logicop self other CHR ''^''"

definition WireVector_add :: "nat \<Rightarrow> operand \<Rightarrow> state \<Rightarrow> nat result" where
  "WireVector_add self other = logicop self other CHR ''+''"

definition WireVector_sub :: "nat \<Rightarrow> operand \<Rightarrow> state \<Rightarrow> nat result" where
  "WireVector_sub self other = logicop self other CHR ''-''"

definition WireVector_mul :: "nat \<Rightarrow> operand \<Rightarrow> state \<Rightarrow> nat result" where
  "WireVector_mul self other = logicop self other CHR ''*''"

definition WireVector_invert :: "nat \<Rightarrow> state \<Rightarrow> nat result" where
  "WireVector_invert self =
     and_then (len self) (\<lambda>l.
       and_then (WireVector_init WireVector (Some l) None)
         (\<lambda>outwire.
            and_then (add_net \<lparr>op = Some CHR ''~'', op_param = None,
                               args = [self], dests = [outwire]\<rparr>)
              (\<lambda>_. ret outwire)))"

subsection \<open>Connecting: \<^verbatim>\<open><<=\<close>\<close>

text \<open>
  \<^verbatim>\<open>WireVector.__ilshift__\<close>. The two width tests read the attribute \<open>bitwidth\<close> of the
  source, which may be \<^verbatim>\<open>None\<close>: Python 2 orders \<^verbatim>\<open>None\<close> below every integer, so the
  first test is false and the second true there. The second test is made on the source
  as the first branch left it.
\<close>

definition WireVector_ilshift :: "nat \<Rightarrow> operand \<Rightarrow> state \<Rightarrow> nat result" where
  "WireVector_ilshift self other =
     and_then (case other of Wire w \<Rightarrow> ret w | IntVal i \<Rightarrow> Const_init Const i None)
       (\<lambda>o1 s.
          case bitwidth (heap s ! self) of
            None \<Rightarrow> raise (PyrtlError []) s
          | Some sb \<Rightarrow>
              and_then
                (if (case bitwidth (heap s ! o1) of None \<Rightarrow> False | Some ob \<Rightarrow> sb < ob)
                 then WireVector_getitem o1 (Slice None (Some sb) None)
                 else ret o1)
                (\<lambda>o2 s2.
                   and_then
                     (if (case bitwidth (heap s2 ! o2) of None \<Rightarrow> True | Some ob \<Rightarrow> sb > ob)
                      then extended o2 sb
                      else ret o2)
                     (\<lambda>o3.
                        and_then (add_net \<lparr>op = None, op_param = None,
                                           args = [o3], dests = [self]\<rparr>)
                          (\<lambda>_. ret self)) s2) s)"

definition Input_ilshift :: "nat \<Rightarrow> operand \<Rightarrow> state \<Rightarrow> nat result" where
  "Input_ilshift self other s =
     raise (PyrtlError (''Input, such as \"'' @ name (heap s ! self)
                        @ ''\", cannot have values generated internally'')) s"

definition Const_ilshift :: "nat \<Rightarrow> operand \<Rightarrow> state \<Rightarrow> nat result" where
  "Const_ilshift self other s =
     raise (PyrtlError (''ConstWires, such as \"'' @ name (heap s ! self)
                        @ ''\", should never be assigned to with <<='')) s"

definition Register_ilshift :: "nat \<Rightarrow> operand \<Rightarrow> state \<Rightarrow> nat result" where
  "Register_ilshift self other s =
     raise (PyrtlError (''Registers, such as \"'' @ name (heap s ! self)
                        @ ''\", should never be assigned to with <<='')) s"

text \<open>\<^verbatim>\<open>self <<= other\<close>: the method of the class of \<open>self\<close> is called.\<close>

definition ilshift :: "nat \<Rightarrow> operand \<Rightarrow> state \<Rightarrow> nat result" where
  "ilshift self other s =
     (let c = cls (heap s ! self) in
      if is_Input c then Input_ilshift self other s
      else if is_Const c then Const_ilshift self other s
      else if is_Register c then Register_ilshift self other s
      else WireVector_ilshift self other s)"

subsection \<open>\<^verbatim>\<open>Register\<close>\<close>

definition Register_init :: "wclass \<Rightarrow> int option \<Rightarrow> string option \<Rightarrow> state \<Rightarrow> nat result" where
  "Register_init c bw nm =
     and_then (WireVector_init c bw nm)
       (\<lambda>r s. ret r (s\<lparr>heap := (heap s)[r := (heap s ! r)\<lparr>reg_in := None\<rparr>]\<rparr>))"

text \<open>\<^verbatim>\<open>_makereg\<close>: the wire of the next value is named after the register, with a quote.\<close>

definition makereg :: "nat \<Rightarrow> state \<Rightarrow> nat result" where
  "makereg self s =
     (case reg_in (heap s ! self) of
        None \<Rightarrow>
          and_then (WireVector_init WireVector (bitwidth (heap s ! self))
                      (Some (name (heap s ! self) @ [CHR 0x27])))
            (\<lambda>n.
               and_then (add_net \<lparr>op = Some CHR ''r'', op_param = None,
                                  args = [n], dests = [self]\<rparr>)
                 (\<lambda>_ s'. ret n (s'\<lparr>heap := (heap s')[self := (heap s' ! self)\<lparr>reg_in := Some n\<rparr>]\<rparr>))) s
      | Some n \<Rightarrow> ret n s)"

text \<open>The property \<^verbatim>\<open>next\<close>: its getter and its setter.\<close>

definition Register_next_get :: "nat \<Rightarrow> state \<Rightarrow> nat result" where
  "Register_next_get self = makereg self"

definition Register_next_set :: "nat \<Rightarrow> operand \<Rightarrow> state \<Rightarrow> unit result" where
  "Register_next_set self v s =
     (if (case v of Wire w \<Rightarrow> reg_in (heap s ! self) = Some w | IntVal _ \<Rightarrow> False) then ret () s
      else if reg_in (heap s ! self) \<noteq> None then raise (PyrtlError []) s
      else and_then (makereg self) (\<lambda>n. and_then (ilshift n v) (\<lambda>_. ret ())) s)"

text \<open>
  \<^verbatim>\<open>r.next <<= v\<close> is an augmented assignment to an attribute: Python reads the
  property, applies \<^verbatim>\<open>__ilshift__\<close> to what it read, and assigns the result to the property.
\<close>

definition Register_next_ilshift :: "nat \<Rightarrow> operand \<Rightarrow> state \<Rightarrow> unit result" where
  "Register_next_ilshift self v =
     and_then (Register_next_get self)
       (\<lambda>t. and_then (ilshift t v) (\<lambda>t'. Register_next_set self (Wire t')))"

subsection \<open>\<^verbatim>\<open>MemBlock\<close>\<close>

text \<open>
  A memory block is an object of its own, held by the caller only: its methods take it
  and return it updated, beside the state. Its lists hold references to wire vectors.
\<close>

record MemBlock =
  mem_bitwidth :: int
  mem_name :: string
  addrwidth :: int
  stored_net :: "LogicNet option"
  mem_id :: nat
  read_addr :: "nat list"
  read_data :: "nat list"
  write_addr :: "nat list"
  write_data :: "nat list"
  write_enable :: "nat list"

type_synonym 'a mresult = "(error + 'a) \<times> MemBlock \<times> state"

definition MemBlock_init :: "int \<Rightarrow> int \<Rightarrow> string option \<Rightarrow> state \<Rightarrow> (error + MemBlock) \<times> state" where
  "MemBlock_init bw aw nm s =
     (if bw \<le> 0 then (Inl (PyrtlError []), s)
      else if aw \<le> 0 then (Inl (PyrtlError []), s)
      else
        (let (nm', s1) = (case nm of None \<Rightarrow> next_tempvar_name s | Some n \<Rightarrow> (n, s));
             (i, s2) = next_memid s1
         in (Inr \<lparr>mem_bitwidth = bw, mem_name = nm', addrwidth = aw, stored_net = None,
                  mem_id = i, read_addr = [], read_data = [], write_addr = [],
                  write_data = [], write_enable = []\<rparr>, s2)))"

text \<open>
  \<^verbatim>\<open>_update_net\<close>. \<^verbatim>\<open>logic.remove(net)\<close> takes out the first node equal to \<open>net\<close> and
  raises when there is none; a net is a tuple, so a stored net is always true.
\<close>

definition update_net :: "MemBlock \<Rightarrow> state \<Rightarrow> unit mresult" where
  "update_net m s =
     (case (case stored_net m of
              None \<Rightarrow> Inr s
            | Some n \<Rightarrow>
                (if n \<in> set (logic (block s))
                 then Inr (s\<lparr>block := (block s)\<lparr>logic := remove1 n (logic (block s))\<rparr>\<rparr>)
                 else Inl ValueError)) of
        Inl e \<Rightarrow> (Inl e, m, s)
      | Inr s1 \<Rightarrow>
          (if length (write_addr m) \<noteq> length (write_data m) then (Inl AssertionError, m, s1)
           else
             (let coupled_write_args = zip (write_addr m) (zip (write_data m) (write_enable m));
                  flattened_write_args = List.concat (map (\<lambda>(a, d, e). [a, d, e]) coupled_write_args);
                  net = \<lparr>op = Some CHR ''m'',
                         op_param = Some [int (mem_id m), int (length (read_addr m)),
                                          int (length (write_addr m))],
                         args = read_addr m @ flattened_write_args,
                         dests = read_data m\<rparr>
              in case add_net net s1 of
                   (Inl e, s2) \<Rightarrow> (Inl e, m, s2)
                 | (Inr _, s2) \<Rightarrow> (Inr (), m\<lparr>stored_net := Some net\<rparr>, s2))))"

definition MemBlock_getitem :: "MemBlock \<Rightarrow> operand \<Rightarrow> state \<Rightarrow> nat mresult" where
  "MemBlock_getitem m item s =
     (case item of
        IntVal _ \<Rightarrow>
          (Inl (PyrtlError ''error, index to a memblock must be a WireVector (or derived) type''), m, s)
      | Wire a \<Rightarrow>
          (case bitwidth (heap s ! a) of
             None \<Rightarrow> (Inl TypeError, m, s)
           | Some l \<Rightarrow>
               (if l \<noteq> addrwidth m
                then (Inl (PyrtlError (''error, width of memblock index \"'' @ name (heap s ! a)
                             @ ''\" is '' @ str_int l @ '', addrwidth is '' @ str_int (addrwidth m))), m, s)
                else
                  (case WireVector_init WireVector (Some (mem_bitwidth m)) None s of
                     (Inl e, s1) \<Rightarrow> (Inl e, m, s1)
                   | (Inr data, s1) \<Rightarrow>
                       (case update_net (m\<lparr>read_data := read_data m @ [data],
                                            read_addr := read_addr m @ [a]\<rparr>) s1 of
                          (Inl e, m', s2) \<Rightarrow> (Inl e, m', s2)
                        | (Inr _, m', s2) \<Rightarrow> (Inr data, m', s2))))))"

text \<open>
  The value written is a wire vector, or \<^verbatim>\<open>DataWithEnable(data, enable)\<close>; anything else
  is refused. \<^verbatim>\<open>len\<close> of an integer raises \<^verbatim>\<open>TypeError\<close>.
\<close>

datatype mem_val = Data operand | DataWithEnable operand operand

definition len_operand :: "operand \<Rightarrow> state \<Rightarrow> error + int" where
  "len_operand x s =
     (case x of
        IntVal _ \<Rightarrow> Inl TypeError
      | Wire w \<Rightarrow> (case bitwidth (heap s ! w) of None \<Rightarrow> Inl TypeError | Some b \<Rightarrow> Inr b))"

definition MemBlock_setitem :: "MemBlock \<Rightarrow> operand \<Rightarrow> mem_val \<Rightarrow> state \<Rightarrow> unit mresult" where
  "MemBlock_setitem m item v s =
     (case item of
        IntVal _ \<Rightarrow> (Inl (PyrtlError []), m, s)
      | Wire addr \<Rightarrow>
          (case bitwidth (heap s ! addr) of
             None \<Rightarrow> (Inl TypeError, m, s)
           | Some l \<Rightarrow>
               (if l \<noteq> addrwidth m then (Inl (PyrtlError []), m, s)
                else
                  (case (case v of
                           Data (Wire d) \<Rightarrow>
                             (case Const_init Const (PyInt 1) (Some (PyInt 1)) s of
                                (Inl e, s1) \<Rightarrow> (Inl e, s1)
                              | (Inr en, s1) \<Rightarrow> (Inr (Wire d, Wire en), s1))
                         | Data (IntVal _) \<Rightarrow> (Inl (PyrtlError []), s)
                         | DataWithEnable d en \<Rightarrow> (Inr (d, en), s)) of
                     (Inl e, s1) \<Rightarrow> (Inl e, m, s1)
                   | (Inr (data, enable), s1) \<Rightarrow>
                       (case len_operand data s1 of
                          Inl e \<Rightarrow> (Inl e, m, s1)
                        | Inr ld \<Rightarrow>
                            (if ld \<noteq> mem_bitwidth m then (Inl (PyrtlError []), m, s1)
                             else
                               (case len_operand enable s1 of
                                  Inl e \<Rightarrow> (Inl e, m, s1)
                                | Inr le \<Rightarrow>
                                    (if le \<noteq> 1 then (Inl (PyrtlError []), m, s1)
                                     else
                                       (case (data, enable) of
                                          (Wire d, Wire en) \<Rightarrow>
                                            update_net (m\<lparr>write_data := write_data m @ [d],
                                                          write_addr := write_addr m @ [addr],
                                                          write_enable := write_enable m @ [en]\<rparr>) s1
                                        | _ \<Rightarrow> (Inl TypeError, m, s1))))))))))"

subsection \<open>Notions used in the statements\<close>

text \<open>
  What an operation did to the store and to the netlist: \<open>grows s s' ws ns\<close> says that
  the heap of \<open>s'\<close> is the heap of \<open>s\<close> followed by new wire vectors whose class, bitwidth
  and value are listed in \<open>ws\<close>, and that the logic of \<open>s'\<close> is the logic of \<open>s\<close>
  followed by the nets \<open>ns\<close>. Names are left out of a shape: they come from the counters.
\<close>

definition shape :: "wirevector \<Rightarrow> wclass \<times> int option \<times> int option" where
  "shape w = (cls w, bitwidth w, val w)"

definition grows :: "state \<Rightarrow> state \<Rightarrow> (wclass \<times> int option \<times> int option) list \<Rightarrow> LogicNet list \<Rightarrow> bool" where
  "grows s s' ws ns \<longleftrightarrow>
     (\<exists>new. heap s' = heap s @ new \<and> map shape new = ws)
     \<and> logic (block s') = logic (block s) @ ns"

text \<open>
  The extension of wire \<open>x\<close> from \<open>k\<close> to \<open>t\<close> bits in a heap of \<open>h\<close> objects, signed
  (\<open>sg\<close>) or not. Three wires are made: at \<open>h\<close> the driver bit (the select of bit
  \<open>k - 1\<close> of \<open>x\<close>, or a constant 0 of one bit), at \<open>h + 1\<close> its \<open>t - k\<close> copies, at
  \<open>h + 2\<close> the concatenation of the copies above \<open>x\<close>.
\<close>

definition ext_wires :: "bool \<Rightarrow> int \<Rightarrow> int \<Rightarrow> (wclass \<times> int option \<times> int option) list" where
  "ext_wires sg k t =
     [(if sg then (WireVector, Some 1, None) else (Const, Some 1, Some 0)),
      (WireVector, Some (t - k), None),
      (WireVector, Some t, None)]"

definition ext_nets :: "bool \<Rightarrow> nat \<Rightarrow> nat \<Rightarrow> int \<Rightarrow> int \<Rightarrow> LogicNet list" where
  "ext_nets sg h x k t =
     (if sg then [\<lparr>op = Some CHR ''s'', op_param = Some [k - 1], args = [x], dests = [h]\<rparr>] else [])
     @ [\<lparr>op = Some CHR ''s'', op_param = Some (replicate (nat (t - k)) 0), args = [h], dests = [h + 1]\<rparr>,
        \<lparr>op = Some CHR ''c'', op_param = None, args = [h + 1, x], dests = [h + 2]\<rparr>]"

text \<open>
  The width \<^verbatim>\<open>logicop\<close> gives its result from the common width \<open>l\<close> of the operands, the
  net of a binary operator, and the connect net.
\<close>

definition result_width :: "char \<Rightarrow> int \<Rightarrow> int" where
  "result_width opc l =
     (let resultlen = l;
          resultlen = (if opc = CHR ''+'' \<or> opc = CHR ''-'' then resultlen + 1 else resultlen);
          resultlen = (if opc = CHR ''*'' then resultlen * 2 else resultlen)
      in resultlen)"

definition op_net :: "char \<Rightarrow> nat \<Rightarrow> nat \<Rightarrow> nat \<Rightarrow> LogicNet" where
  "op_net opc a b r = \<lparr>op = Some opc, op_param = None, args = [a, b], dests = [r]\<rparr>"

definition connect_net :: "nat \<Rightarrow> nat \<Rightarrow> LogicNet" where
  "connect_net src dst = \<lparr>op = None, op_param = None, args = [src], dests = [dst]\<rparr>"

text \<open>
  Memory blocks. \<open>is_mem_net i\<close> holds of the nets of the memory with identity \<open>i\<close>;
  \<open>mem_net m\<close> is the net \<^verbatim>\<open>_update_net\<close> builds from the port lists of \<open>m\<close>.
  \<open>mem_inv\<close> is the state a block keeps between accesses: its port lists have matching
  lengths, and its nets in the netlist are its stored net, if it has one, which is the net
  of its port lists. \<open>live_net\<close> is what the specification asks of the block after an
  access, with the inputs written position by position.
\<close>

definition is_mem_net :: "nat \<Rightarrow> LogicNet \<Rightarrow> bool" where
  "is_mem_net i n \<longleftrightarrow>
     op n = Some CHR ''m'' \<and> (case op_param n of Some (j # _) \<Rightarrow> j = int i | _ \<Rightarrow> False)"

definition mem_net :: "MemBlock \<Rightarrow> LogicNet" where
  "mem_net m =
     \<lparr>op = Some CHR ''m'',
      op_param = Some [int (mem_id m), int (length (read_addr m)), int (length (write_addr m))],
      args = read_addr m
             @ List.concat (map (\<lambda>(a, d, e). [a, d, e])
                 (zip (write_addr m) (zip (write_data m) (write_enable m)))),
      dests = read_data m\<rparr>"

definition ports_ok :: "MemBlock \<Rightarrow> bool" where
  "ports_ok m \<longleftrightarrow>
     length (read_data m) = length (read_addr m)
     \<and> length (write_data m) = length (write_addr m)
     \<and> length (write_enable m) = length (write_addr m)"

definition mem_inv :: "MemBlock \<Rightarrow> state \<Rightarrow> bool" where
  "mem_inv m s \<longleftrightarrow>
     ports_ok m
     \<and> filter (is_mem_net (mem_id m)) (logic (block s))
         = (case stored_net m of None \<Rightarrow> [] | Some n \<Rightarrow> [n])
     \<and> (\<forall>n. stored_net m = Some n \<longrightarrow> n = mem_net m)"

definition live_net :: "MemBlock \<Rightarrow> state \<Rightarrow> bool" where
  "live_net m s \<longleftrightarrow>
     (\<exists>net. filter (is_mem_net (mem_id m)) (logic (block s)) = [net]
        \<and> stored_net m = Some net
        \<and> op net = Some CHR ''m''
        \<and> op_param net = Some [int (mem_id m), int (length (read_addr m)), int (length (write_addr m))]
        \<and> args net = read_addr m
             @ List.concat (map (\<lambda>i. [write_addr m ! i, write_data m ! i, write_enable m ! i])
                              [0..<length (write_addr m)])
        \<and> dests net = read_data m)"

subsection \<open>Example netlists\<close>

text \<open>An input \<^verbatim>\<open>a\<close>, the constant 1 and a register \<^verbatim>\<open>r\<close>, made in an empty block.\<close>

definition example_wires :: state where
  "example_wires =
     snd (and_then (WireVector_init Input (Some 1) (Some ''a''))
            (\<lambda>_. and_then (Const_init Const (PyInt 1) None)
               (\<lambda>_. Register_init Register (Some 1) (Some ''r''))) empty_state)"

text \<open>A 2-bit input \<^verbatim>\<open>a\<close> multiplied by a 3-bit input \<^verbatim>\<open>b\<close>.\<close>

definition mul_example :: "nat result" where
  "mul_example =
     and_then (WireVector_init Input (Some 2) (Some ''a''))
       (\<lambda>a. and_then (WireVector_init Input (Some 3) (Some ''b''))
          (\<lambda>b. WireVector_mul a (Wire b))) empty_state"

text \<open>A 2-bit input \<^verbatim>\<open>a\<close> and a signed 3-bit input \<^verbatim>\<open>b\<close>.\<close>

definition two_inputs :: state where
  "two_inputs =
     snd (and_then (WireVector_init Input (Some 2) (Some ''a''))
            (\<lambda>_. WireVector_init SignedInput (Some 3) (Some ''b'')) empty_state)"

text \<open>A signed 3-bit wire \<^verbatim>\<open>a\<close>.\<close>

definition signed_example :: state where
  "signed_example = snd (WireVector_init SignedWireVector (Some 3) (Some ''a'') empty_state)"

text \<open>
  A one-bit register \<^verbatim>\<open>r\<close> and one-bit inputs \<^verbatim>\<open>a\<close> and \<^verbatim>\<open>b\<close>, after
  \<^verbatim>\<open>r.next <<= a\<close>.
\<close>

definition reg_example :: state where
  "reg_example =
     snd (and_then (Register_init Register (Some 1) (Some ''r''))
            (\<lambda>r. and_then (WireVector_init Input (Some 1) (Some ''a''))
               (\<lambda>a. and_then (WireVector_init Input (Some 1) (Some ''b''))
                  (\<lambda>b. Register_next_ilshift r (Wire a)))) empty_state)"

text \<open>A signed 3-bit wire \<^verbatim>\<open>t\<close> and an unsigned 2-bit wire \<^verbatim>\<open>x\<close>.\<close>

definition connect_example :: state where
  "connect_example =
     snd (and_then (WireVector_init SignedWireVector (Some 3) (Some ''t''))
            (\<lambda>_. WireVector_init WireVector (Some 2) (Some ''x'')) empty_state)"

text \<open>
  A 4-bit address input and an 8-bit data input; a memory block of 8-bit words with 4-bit
  addresses made beside them; the block and the state after one read at the address input.
\<close>

definition mem_state :: state where
  "mem_state =
     snd (and_then (WireVector_init Input (Some 4) (Some ''addr''))
            (\<lambda>_. WireVector_init Input (Some 8) (Some ''din'')) empty_state)"

definition mem0 :: MemBlock where
  "mem0 = projr (fst (MemBlock_init 8 4 (Some ''mem'') mem_state))"

definition mem_state0 :: state where
  "mem_state0 = snd (MemBlock_init 8 4 (Some ''mem'') mem_state)"

definition mem1 :: MemBlock where
  "mem1 = fst (snd (MemBlock_getitem mem0 (Wire 0) mem_state0))"

definition mem_state1 :: state where
  "mem_state1 = snd (snd (MemBlock_getitem mem0 (Wire 0) mem_state0))"

section \<open>Properties\<close>

subsection \<open>Names and binary digits\<close>




lemma tempvar_name_not_clock:
  "lower (fst (next_tempvar_name s)) \<notin> set [''clk'', ''clock'']"
proof -
  have "lower (fst (next_tempvar_name s)) = ''tmp'' @ lower (str_nat (tempvar_count s))"
    by (simp add: next_tempvar_name_def lower_def lower_char_def)
  then show ?thesis by auto
qed




subsection \<open>Constructors and the forbidden assignments\<close>


text \<open>
  Claim C10: constructing a wire vector with an explicit name that is \<^verbatim>\<open>clk\<close> or
  \<^verbatim>\<open>clock\<close> in any mix of upper and lower case fails with an error, and nothing is
  added to the netlist: the state is the one before the call. \<^verbatim>\<open>Register\<close>, like
  \<^verbatim>\<open>Input\<close> and \<^verbatim>\<open>Output\<close>, runs the same constructor.
\<close>

theorem reserved_clock_name_rejected:
  "lower nm \<in> {''clk'', ''clock''} \<Longrightarrow>
     WireVector_init c bw (Some nm) s =
       (Inl (PyrtlError ''Clock signals should never be explicitly instantiated''), s)
   \<and> Register_init c bw (Some nm) s =
       (Inl (PyrtlError ''Clock signals should never be explicitly instantiated''), s)"
  by (auto simp: WireVector_init_def Register_init_def and_then_def raise_def)

theorem reserved_clock_name_rejected_witness:
  "lower ''Clk'' \<in> {''clk'', ''clock''}
   \<and> WireVector_init Input (Some 1) (Some ''Clk'') empty_state =
       (Inl (PyrtlError ''Clock signals should never be explicitly instantiated''), empty_state)
   \<and> Register_init Register (Some 1) (Some ''Clk'') empty_state =
       (Inl (PyrtlError ''Clock signals should never be explicitly instantiated''), empty_state)"
proof -
  have h: "lower ''Clk'' \<in> {''clk'', ''clock''}"
    by code_simp
  show ?thesis
    using h reserved_clock_name_rejected [OF h, of Input "Some 1" empty_state]
      reserved_clock_name_rejected [OF h, of Register "Some 1" empty_state] 
    by simp
qed

text \<open>
  Claim C9: \<^verbatim>\<open><<=\<close> applied to an \<^verbatim>\<open>Input\<close>, a \<^verbatim>\<open>Const\<close> or a \<^verbatim>\<open>Register\<close> (or a
  signed subclass of one) fails with a \<^verbatim>\<open>PyrtlError\<close> whose message quotes the name of
  that wire, and the state, so the netlist, is unchanged.
\<close>

theorem ilshift_forbidden:
  "(is_Input (cls (heap s ! w)) \<longrightarrow>
      ilshift w other s =
        (Inl (PyrtlError (''Input, such as \"'' @ name (heap s ! w)
                          @ ''\", cannot have values generated internally'')), s))
   \<and> (is_Const (cls (heap s ! w)) \<longrightarrow>
      ilshift w other s =
        (Inl (PyrtlError (''ConstWires, such as \"'' @ name (heap s ! w)
                          @ ''\", should never be assigned to with <<='')), s))
   \<and> (is_Register (cls (heap s ! w)) \<longrightarrow>
      ilshift w other s =
        (Inl (PyrtlError (''Registers, such as \"'' @ name (heap s ! w)
                          @ ''\", should never be assigned to with <<='')), s))"
  by (cases "cls (heap s ! w)")
     (simp_all add: ilshift_def Input_ilshift_def Const_ilshift_def Register_ilshift_def raise_def)





text \<open>
  A \<^verbatim>\<open>long\<close> value with a width of type \<^verbatim>\<open>int\<close> reaches \<^verbatim>\<open>if num < 0\<close> with
  \<^verbatim>\<open>num\<close> unbound.
\<close>

lemma Const_init_long_value_unbound:
  "Const_init c (PyLong v) (Some (PyInt w)) s
     = (Inl UnboundLocalError, snd (next_constvar_name v s))"
  by (simp add: Const_init_def raise_def split: prod.splits)


theorem ilshift_forbidden_witness:
  "is_Input (cls (heap example_wires ! 0))
   \<and> ilshift 0 (IntVal (PyInt 1)) example_wires =
       (Inl (PyrtlError ''Input, such as \"a\", cannot have values generated internally''), example_wires)
   \<and> is_Const (cls (heap example_wires ! 1))
   \<and> ilshift 1 (Wire 0) example_wires =
       (Inl (PyrtlError ''ConstWires, such as \"const0_1\", should never be assigned to with <<=''), example_wires)
   \<and> is_Register (cls (heap example_wires ! 2))
   \<and> ilshift 2 (Wire 0) example_wires =
       (Inl (PyrtlError ''Registers, such as \"r\", should never be assigned to with <<=''), example_wires)"
proof -
  have c: "is_Input (cls (heap example_wires ! 0))" "is_Const (cls (heap example_wires ! 1))"
    "is_Register (cls (heap example_wires ! 2))"
    by code_simp+
  have n: "name (heap example_wires ! 0) = ''a''" "name (heap example_wires ! 1) = ''const0_1''"
    "name (heap example_wires ! 2) = ''r''"
    by code_simp+
  show ?thesis
    using c n ilshift_forbidden [of example_wires 0 "IntVal (PyInt 1)"]
      ilshift_forbidden [of example_wires 1 "Wire 0"]
      ilshift_forbidden [of example_wires 2 "Wire 0"]
    by simp
qed




subsection \<open>What the operations add to heap and netlist\<close>

lemma grows_step:
  "grows s s1 ws1 ns1 \<Longrightarrow> grows s1 s2 ws2 ns2 \<Longrightarrow> ws = ws1 @ ws2 \<Longrightarrow> ns = ns1 @ ns2
   \<Longrightarrow> grows s s2 ws ns"
  by (auto simp: grows_def)

lemma grows_length: "grows s s' ws ns \<Longrightarrow> length (heap s') = length (heap s) + length ws"
  by (auto simp: grows_def)

lemma grows_old: "grows s s' ws ns \<Longrightarrow> i < length (heap s) \<Longrightarrow> heap s' ! i = heap s ! i"
  by (auto simp: grows_def nth_append)

lemma grows_new:
  "grows s s' ws ns \<Longrightarrow> i < length ws \<Longrightarrow> shape (heap s' ! (length (heap s) + i)) = ws ! i"
  by (auto simp: grows_def nth_append)

lemma grows_logic: "grows s s' ws ns \<Longrightarrow> logic (block s') = logic (block s) @ ns"
  by (simp add: grows_def)

lemma and_then_Inr:
  assumes "and_then m f s = (Inr y, s'')"
  obtains x s' where "m s = (Inr x, s')" and "f x s' = (Inr y, s'')"
  using assms by (auto simp: and_then_def split: prod.splits sum.splits)

lemma WireVector_init_grows:
  assumes "WireVector_init c bw nm s = (Inr r, s')"
  shows "r = length (heap s)" and "grows s s' [(c, bw, None)] []"
    and "\<And>b. bw = Some b \<Longrightarrow> 0 < b"
  using assms
  by (auto simp: WireVector_init_def Let_def raise_def ret_def add_wirevector_def next_tempvar_name_def
        grows_def shape_def split: option.splits if_splits sum.splits prod.splits)

lemma add_net_grows: "add_net net s = (Inr u, s') \<Longrightarrow> grows s s' [] [net]"
  by (auto simp: add_net_def grows_def)

lemma Const_init_grows:
  assumes "Const_init c v bw s = (Inr r, s')"
  shows "r = length (heap s)"
    and "\<exists>k. grows s s' [(c, Some k, Some (num_of v))] [] \<and> 0 < k
           \<and> (\<forall>b. bw = Some b \<longrightarrow> b = PyInt k)"
proof -
  obtain nm s1 where n: "next_constvar_name (num_of v) s = (nm, s1)"
    by (cases "next_constvar_name (num_of v) s")
  then have s1: "heap s1 = heap s" "block s1 = block s"
    by (auto simp: next_constvar_name_def)
  from assms n obtain k where
    bk: "(if is_int v \<and> bw = None
          then Some (PyInt (int (length (bin (num_of v))) - 2)) else bw) = Some (PyInt k)"
    and iv: "is_int v"
    and ok: "and_then (WireVector_init c (Some k) (Some nm))
          (\<lambda>r s2. ret r (s2\<lparr>heap := (heap s2)[r := (heap s2 ! r)\<lparr>val := Some (num_of v)\<rparr>]\<rparr>)) s1
          = (Inr r, s')"
    by (auto simp: Const_init_def raise_def Let_def split: if_splits option.splits pynum.splits)
  from ok obtain r0 s2 where w: "WireVector_init c (Some k) (Some nm) s1 = (Inr r0, s2)"
    and fin: "ret r0 (s2\<lparr>heap := (heap s2)[r0 := (heap s2 ! r0)\<lparr>val := Some (num_of v)\<rparr>]\<rparr>) = (Inr r, s')"
    by (rule and_then_Inr)
  from WireVector_init_grows [OF w] have r0: "r0 = length (heap s1)"
    and g: "grows s1 s2 [(c, Some k, None)] []" and k: "0 < k" by simp_all
  from fin have r: "r = r0"
    and s': "s' = s2\<lparr>heap := (heap s2)[r0 := (heap s2 ! r0)\<lparr>val := Some (num_of v)\<rparr>]\<rparr>"
    by (auto simp: ret_def)
  show "r = length (heap s)" using r r0 s1 by simp
  from g obtain w0 where h2: "heap s2 = heap s1 @ [w0]" and sh: "shape w0 = (c, Some k, None)"
    and l2: "logic (block s2) = logic (block s1)"
    by (auto simp: grows_def)
  have "grows s s' [(c, Some k, Some (num_of v))] []"
    using h2 sh l2 s1 r0 s' by (auto simp: grows_def shape_def)
  moreover have "\<forall>b. bw = Some b \<longrightarrow> b = PyInt k" using bk by (auto split: if_splits)
  ultimately show "\<exists>k. grows s s' [(c, Some k, Some (num_of v))] [] \<and> 0 < k
           \<and> (\<forall>b. bw = Some b \<longrightarrow> b = PyInt k)"
    using k by blast
qed

lemma WireVector_getitem_grows:
  assumes "WireVector_getitem self item s = (Inr r, s')"
  shows "\<exists>bw sel. bitwidth (heap s ! self) = Some bw \<and> py_getitem [0..bw - 1] item = Inr sel
      \<and> r = length (heap s)
      \<and> grows s s' [(WireVector, Some (int (length sel)), None)]
           [\<lparr>op = Some CHR ''s'', op_param = Some sel, args = [self], dests = [r]\<rparr>]"
proof -
  from assms obtain bw where bw: "bitwidth (heap s ! self) = Some bw"
    by (auto simp: WireVector_getitem_def raise_def split: option.splits)
  with assms obtain sel where sel: "py_getitem [0..bw - 1] item = Inr sel"
    by (auto simp: WireVector_getitem_def raise_def split: sum.splits)
  from assms bw sel have
    "and_then (WireVector_init WireVector (Some (int (length sel))) None)
       (\<lambda>outwire. and_then (add_net \<lparr>op = Some CHR ''s'', op_param = Some sel,
                                       args = [self], dests = [outwire]\<rparr>)
                      (\<lambda>_. ret outwire)) s = (Inr r, s')"
    by (simp add: WireVector_getitem_def)
  then obtain o1 s1 where w: "WireVector_init WireVector (Some (int (length sel))) None s = (Inr o1, s1)"
    and rest: "and_then (add_net \<lparr>op = Some CHR ''s'', op_param = Some sel, args = [self], dests = [o1]\<rparr>)
                      (\<lambda>_. ret o1) s1 = (Inr r, s')"
    by (rule and_then_Inr)
  from rest obtain u s2 where a: "add_net \<lparr>op = Some CHR ''s'', op_param = Some sel, args = [self], dests = [o1]\<rparr> s1 = (Inr u, s2)"
    and fin: "ret o1 s2 = (Inr r, s')"
    by (rule and_then_Inr)
  from fin have r: "r = o1" "s' = s2" by (simp_all add: ret_def)
  have "r = length (heap s)" using WireVector_init_grows(1) [OF w] r by simp
  moreover have "grows s s' [(WireVector, Some (int (length sel)), None)]
        [\<lparr>op = Some CHR ''s'', op_param = Some sel, args = [self], dests = [r]\<rparr>]"
    using WireVector_init_grows(2) [OF w] add_net_grows [OF a] r
    by (auto elim: grows_step)
  ultimately show ?thesis using bw sel by simp
qed

lemma new_wire_net_grows:
  assumes "and_then (WireVector_init WireVector bw None)
             (\<lambda>outwire. and_then (add_net (f outwire)) (\<lambda>_. ret outwire)) s = (Inr r, s')"
  shows "r = length (heap s)" and "grows s s' [(WireVector, bw, None)] [f r]"
    and "\<And>b. bw = Some b \<Longrightarrow> 0 < b"
proof -
  from assms obtain o1 s1 where w: "WireVector_init WireVector bw None s = (Inr o1, s1)"
    and rest: "and_then (add_net (f o1)) (\<lambda>_. ret o1) s1 = (Inr r, s')"
    by (rule and_then_Inr)
  from rest obtain u s2 where a: "add_net (f o1) s1 = (Inr u, s2)" and fin: "ret o1 s2 = (Inr r, s')"
    by (rule and_then_Inr)
  from fin have r: "r = o1" "s' = s2" by (simp_all add: ret_def)
  show "r = length (heap s)" using WireVector_init_grows(1) [OF w] r by simp
  show "grows s s' [(WireVector, bw, None)] [f r]"
    using WireVector_init_grows(2) [OF w] add_net_grows [OF a] r by (auto elim: grows_step)
  show "\<And>b. bw = Some b \<Longrightarrow> 0 < b" using WireVector_init_grows(3) [OF w] by simp
qed

lemma lens_Inr: "lens h as = Inr ws \<Longrightarrow> map (\<lambda>a. bitwidth (h ! a)) as = map Some ws"
  by (induction as arbitrary: ws) (auto split: option.splits sum.splits)

lemma concat_wv_grows:
  assumes "concat_wv as s = (Inr r, s')" and "2 \<le> length as"
  shows "\<exists>ws. map (\<lambda>a. bitwidth (heap s ! a)) as = map Some ws \<and> r = length (heap s)
      \<and> grows s s' [(WireVector, Some (sum_list ws), None)]
           [\<lparr>op = Some CHR ''c'', op_param = None, args = as, dests = [r]\<rparr>]"
proof -
  from assms obtain ws where l: "lens (heap s) as = Inr ws"
    by (auto simp: concat_wv_def raise_def split: sum.splits if_splits)
  with assms have
    "and_then (WireVector_init WireVector (Some (sum_list ws)) None)
       (\<lambda>outwire. and_then (add_net \<lparr>op = Some CHR ''c'', op_param = None, args = as, dests = [outwire]\<rparr>)
                     (\<lambda>_. ret outwire)) s = (Inr r, s')"
    by (simp add: concat_wv_def Let_def split: if_splits)
  from new_wire_net_grows(1,2) [OF this] lens_Inr [OF l] show ?thesis by blast
qed

lemma concat_wv_single: "concat_wv [a] s = (Inr a, s)"
  by (simp add: concat_wv_def ret_def)

lemma extend_with_bit_same:
  "bitwidth (heap s ! self) = Some k \<Longrightarrow> extend_with_bit self k extbit s = (Inr self, s)"
  by (simp add: extend_with_bit_def ret_def Let_def)

lemma extend_with_bit_less:
  "bitwidth (heap s ! self) = Some k \<Longrightarrow> bw < k \<Longrightarrow>
   extend_with_bit self bw extbit s =
     (Inl (PyrtlError ''error, zero_extended cannot reduce the number of bits''), s)"
  by (simp add: extend_with_bit_def raise_def Let_def)

lemma extend_with_bit_grows:
  assumes "extend_with_bit self bw extbit s = (Inr r, s')"
    and k: "bitwidth (heap s ! self) = Some k" and lt: "k < bw" and v: "self < length (heap s)"
  shows "r = length (heap s) + 1"
    and "grows s s' [(WireVector, Some (bw - k), None), (WireVector, Some bw, None)]
           [\<lparr>op = Some CHR ''s'', op_param = Some (replicate (nat (bw - k)) 0),
              args = [extbit], dests = [length (heap s)]\<rparr>,
            \<lparr>op = Some CHR ''c'', op_param = None,
              args = [length (heap s), self], dests = [length (heap s) + 1]\<rparr>]"
proof -
  let ?net = "\<lambda>e. \<lparr>op = Some CHR ''s'', op_param = Some (replicate (nat (bw - k)) 0),
                    args = [extbit], dests = [e]\<rparr>"
  from assms have "and_then (WireVector_init WireVector (Some (bw - k)) None)
       (\<lambda>extvector. and_then (add_net (?net extvector)) (\<lambda>_. concat_wv [extvector, self])) s = (Inr r, s')"
    by (simp add: extend_with_bit_def Let_def)
  then obtain e s1 where w: "WireVector_init WireVector (Some (bw - k)) None s = (Inr e, s1)"
    and rest: "and_then (add_net (?net e)) (\<lambda>_. concat_wv [e, self]) s1 = (Inr r, s')"
    by (rule and_then_Inr)
  from rest obtain u s2 where a: "add_net (?net e) s1 = (Inr u, s2)"
    and c: "concat_wv [e, self] s2 = (Inr r, s')"
    by (rule and_then_Inr)
  note g1 = WireVector_init_grows(2) [OF w] and e = WireVector_init_grows(1) [OF w]
  note g2 = add_net_grows [OF a]
  have g12: "grows s s2 [(WireVector, Some (bw - k), None)] [?net e]"
    using g1 g2 by (auto elim: grows_step)
  have "2 \<le> length [e, self]" by simp
  from concat_wv_grows [OF c this] obtain ws where
    ws: "map (\<lambda>a. bitwidth (heap s2 ! a)) [e, self] = map Some ws"
    and r: "r = length (heap s2)"
    and g3: "grows s2 s' [(WireVector, Some (sum_list ws), None)]
           [\<lparr>op = Some CHR ''c'', op_param = None, args = [e, self], dests = [r]\<rparr>]"
    by blast
  have he: "shape (heap s2 ! e) = (WireVector, Some (bw - k), None)"
    using grows_new [OF g12, of 0] e by simp
  have hs: "heap s2 ! self = heap s ! self" using grows_old [OF g12 v] .
  from ws he hs k have "ws = [bw - k, k]" by (cases ws) (auto simp: shape_def)
  then have sum: "sum_list ws = bw" by simp
  have l2: "length (heap s2) = length (heap s) + 1" using grows_length [OF g12] by simp
  show "r = length (heap s) + 1" using r l2 by simp
  show "grows s s' [(WireVector, Some (bw - k), None), (WireVector, Some bw, None)]
           [?net (length (heap s)),
            \<lparr>op = Some CHR ''c'', op_param = None,
              args = [length (heap s), self], dests = [length (heap s) + 1]\<rparr>]"
    using g12 g3 sum r l2 e by (auto elim: grows_step)
qed

lemma py_getitem_last_Inr: "py_getitem [0..k - 1] (Idx (- 1)) = Inr sel \<Longrightarrow> 0 < k \<and> sel = [k - 1]"
  by (cases "0 < k") (auto simp: py_getitem_def split: if_splits)

lemma and_then_ret: "and_then (ret x) f s = f x s"
  by (simp add: and_then_def ret_def)

lemma and_then_len: "bitwidth (heap s ! a) = Some n \<Longrightarrow> and_then (len a) f s = f n s"
  by (simp add: len_def and_then_def ret_def)

subsection \<open>Extension and the binary operators\<close>

lemma zero_extended_grows:
  assumes z: "zero_extended x t s = (Inr r, s')"
    and k: "bitwidth (heap s ! x) = Some k" and v: "x < length (heap s)"
  shows "k \<le> t"
    and "k = t \<Longrightarrow> r = x \<and> grows s s' [(Const, Some 1, Some 0)] []"
    and "k < t \<Longrightarrow> r = length (heap s) + 2
           \<and> grows s s' (ext_wires False k t) (ext_nets False (length (heap s)) x k t)"
proof -
  from z obtain c s1 where c: "Const_init Const (PyInt 0) (Some (PyInt 1)) s = (Inr c, s1)"
    and e: "extend_with_bit x t c s1 = (Inr r, s')"
    unfolding zero_extended_def by (rule and_then_Inr)
  from Const_init_grows [OF c] have c0: "c = length (heap s)"
    and g1: "grows s s1 [(Const, Some 1, Some 0)] []" by auto
  have k1: "bitwidth (heap s1 ! x) = Some k" using grows_old [OF g1 v] k by simp
  have v1: "x < length (heap s1)" using grows_length [OF g1] v by simp
  have l1: "length (heap s1) = length (heap s) + 1" using grows_length [OF g1] by simp
  show "k \<le> t"
  proof (rule ccontr)
    assume "\<not> k \<le> t"
    then have "t < k" by simp
    from extend_with_bit_less [OF k1 this, of c] e show False by simp
  qed
  show "r = x \<and> grows s s' [(Const, Some 1, Some 0)] []" if "k = t"
    using extend_with_bit_same [OF k1, of c] e that g1 by simp
  show "r = length (heap s) + 2
           \<and> grows s s' (ext_wires False k t) (ext_nets False (length (heap s)) x k t)" if lt: "k < t"
  proof -
    note r = extend_with_bit_grows(1) [OF e k1 lt v1]
    note g2 = extend_with_bit_grows(2) [OF e k1 lt v1]
    have "grows s s' (ext_wires False k t) (ext_nets False (length (heap s)) x k t)"
      using g1 g2 [unfolded l1 c0] by (rule grows_step) (simp_all add: ext_wires_def ext_nets_def)
    then show ?thesis using r l1 by simp
  qed
qed

lemma sign_extended_grows:
  assumes z: "sign_extended x t s = (Inr r, s')"
    and k: "bitwidth (heap s ! x) = Some k" and v: "x < length (heap s)"
  shows "k \<le> t"
    and "k = t \<Longrightarrow> r = x \<and> grows s s' [(WireVector, Some 1, None)]
            [\<lparr>op = Some CHR ''s'', op_param = Some [k - 1], args = [x], dests = [length (heap s)]\<rparr>]"
    and "k < t \<Longrightarrow> r = length (heap s) + 2
           \<and> grows s s' (ext_wires True k t) (ext_nets True (length (heap s)) x k t)"
proof -
  from z obtain c s1 where c: "WireVector_getitem x (Idx (- 1)) s = (Inr c, s1)"
    and e: "extend_with_bit x t c s1 = (Inr r, s')"
    unfolding sign_extended_def by (rule and_then_Inr)
  from WireVector_getitem_grows [OF c] k obtain sel where
    sel: "py_getitem [0..k - 1] (Idx (- 1)) = Inr sel" and c0: "c = length (heap s)"
    and g0: "grows s s1 [(WireVector, Some (int (length sel)), None)]
           [\<lparr>op = Some CHR ''s'', op_param = Some sel, args = [x], dests = [c]\<rparr>]"
    by auto
  from py_getitem_last_Inr [OF sel] have sel': "sel = [k - 1]" by simp
  have g1: "grows s s1 [(WireVector, Some 1, None)]
           [\<lparr>op = Some CHR ''s'', op_param = Some [k - 1], args = [x], dests = [length (heap s)]\<rparr>]"
    using g0 sel' c0 by simp
  have k1: "bitwidth (heap s1 ! x) = Some k" using grows_old [OF g1 v] k by simp
  have v1: "x < length (heap s1)" using grows_length [OF g1] v by simp
  have l1: "length (heap s1) = length (heap s) + 1" using grows_length [OF g1] by simp
  show "k \<le> t"
  proof (rule ccontr)
    assume "\<not> k \<le> t"
    then have "t < k" by simp
    from extend_with_bit_less [OF k1 this, of c] e show False by simp
  qed
  show "r = x \<and> grows s s' [(WireVector, Some 1, None)]
            [\<lparr>op = Some CHR ''s'', op_param = Some [k - 1], args = [x], dests = [length (heap s)]\<rparr>]"
    if "k = t"
    using extend_with_bit_same [OF k1, of c] e that g1 by simp
  show "r = length (heap s) + 2
           \<and> grows s s' (ext_wires True k t) (ext_nets True (length (heap s)) x k t)" if lt: "k < t"
  proof -
    note r = extend_with_bit_grows(1) [OF e k1 lt v1]
    note g2 = extend_with_bit_grows(2) [OF e k1 lt v1]
    have "grows s s' (ext_wires True k t) (ext_nets True (length (heap s)) x k t)"
      using g1 g2 [unfolded l1 c0] by (rule grows_step) (simp_all add: ext_wires_def ext_nets_def)
    then show ?thesis using r l1 by simp
  qed
qed

lemma extended_grows:
  assumes z: "extended x t s = (Inr r, s')"
    and k: "bitwidth (heap s ! x) = Some k" and v: "x < length (heap s)" and lt: "k < t"
  shows "r = length (heap s) + 2"
    and "grows s s' (ext_wires (is_signed (cls (heap s ! x))) k t)
           (ext_nets (is_signed (cls (heap s ! x))) (length (heap s)) x k t)"
proof -
  show "r = length (heap s) + 2"
    using z zero_extended_grows(3) [OF _ k v lt, of r s'] sign_extended_grows(3) [OF _ k v lt, of r s']
    by (auto simp: extended_def split: if_splits)
  show "grows s s' (ext_wires (is_signed (cls (heap s ! x))) k t)
           (ext_nets (is_signed (cls (heap s ! x))) (length (heap s)) x k t)"
    using z zero_extended_grows(3) [OF _ k v lt, of r s'] sign_extended_grows(3) [OF _ k v lt, of r s']
    by (auto simp: extended_def split: if_splits)
qed

lemma logicop_unfold:
  assumes "bitwidth (heap s ! a) = Some n" and "bitwidth (heap s ! b) = Some m"
  shows "logicop a (Wire b) opc s =
     and_then
       (if n < m then and_then (extended a m) (\<lambda>a'. ret (a', b))
        else if m < n then and_then (extended b n) (\<lambda>b'. ret (a, b'))
        else ret (a, b))
       (\<lambda>(a, b). and_then (len a) (\<lambda>l.
           and_then (WireVector_init WireVector (Some (result_width opc l)) None)
             (\<lambda>r. and_then (add_net (op_net opc a b r)) (\<lambda>_. ret r)))) s"
  using assms
  by (simp add: logicop_def and_then_ret and_then_len result_width_def op_net_def Let_def)

lemma logicop_final:
  assumes "and_then (len a) (\<lambda>l.
           and_then (WireVector_init WireVector (Some (result_width opc l)) None)
             (\<lambda>r. and_then (add_net (op_net opc a b r)) (\<lambda>_. ret r))) s = (Inr r, s')"
    and "bitwidth (heap s ! a) = Some l"
  shows "r = length (heap s)"
    and "grows s s' [(WireVector, Some (result_width opc l), None)] [op_net opc a b r]"
proof -
  from assms have "and_then (WireVector_init WireVector (Some (result_width opc l)) None)
             (\<lambda>r. and_then (add_net (op_net opc a b r)) (\<lambda>_. ret r)) s = (Inr r, s')"
    by (simp add: and_then_len)
  from new_wire_net_grows(1,2) [OF this]
  show "r = length (heap s)"
    and "grows s s' [(WireVector, Some (result_width opc l), None)] [op_net opc a b r]"
    by simp_all
qed

lemma logicop_grows:
  assumes l: "logicop a (Wire b) opc s = (Inr r, s')"
    and n: "bitwidth (heap s ! a) = Some n" and m: "bitwidth (heap s ! b) = Some m"
    and va: "a < length (heap s)" and vb: "b < length (heap s)"
  shows "n = m \<Longrightarrow> r = length (heap s)
           \<and> grows s s' [(WireVector, Some (result_width opc n), None)] [op_net opc a b r]"
    and "n < m \<Longrightarrow> r = length (heap s) + 3
           \<and> grows s s' (ext_wires (is_signed (cls (heap s ! a))) n m
                          @ [(WireVector, Some (result_width opc m), None)])
                (ext_nets (is_signed (cls (heap s ! a))) (length (heap s)) a n m
                          @ [op_net opc (length (heap s) + 2) b r])"
    and "m < n \<Longrightarrow> r = length (heap s) + 3
           \<and> grows s s' (ext_wires (is_signed (cls (heap s ! b))) m n
                          @ [(WireVector, Some (result_width opc n), None)])
                (ext_nets (is_signed (cls (heap s ! b))) (length (heap s)) b m n
                          @ [op_net opc a (length (heap s) + 2) r])"
proof -
  note u = l [unfolded logicop_unfold [OF n m]]
  show "r = length (heap s)
           \<and> grows s s' [(WireVector, Some (result_width opc n), None)] [op_net opc a b r]" if "n = m"
    using u that logicop_final [of a opc b s r s' n] n by (simp add: and_then_ret)
  show "r = length (heap s) + 3
           \<and> grows s s' (ext_wires (is_signed (cls (heap s ! a))) n m
                          @ [(WireVector, Some (result_width opc m), None)])
                (ext_nets (is_signed (cls (heap s ! a))) (length (heap s)) a n m
                          @ [op_net opc (length (heap s) + 2) b r])" if lt: "n < m"
  proof -
    from u lt obtain p s1 where e: "and_then (extended a m) (\<lambda>a'. ret (a', b)) s = (Inr p, s1)"
      and f: "(case p of (a, b) \<Rightarrow> and_then (len a) (\<lambda>l.
           and_then (WireVector_init WireVector (Some (result_width opc l)) None)
             (\<lambda>r. and_then (add_net (op_net opc a b r)) (\<lambda>_. ret r)))) s1 = (Inr r, s')"
      by (auto elim: and_then_Inr)
    from e obtain a' where e': "extended a m s = (Inr a', s1)" and p: "p = (a', b)"
      by (auto elim!: and_then_Inr simp: ret_def)
    note a' = extended_grows(1) [OF e' n va lt] and g1 = extended_grows(2) [OF e' n va lt]
    have "shape (heap s1 ! (length (heap s) + 2)) = ext_wires (is_signed (cls (heap s ! a))) n m ! 2"
      by (rule grows_new [OF g1]) (simp add: ext_wires_def)
    then have w: "bitwidth (heap s1 ! a') = Some m"
      using a' by (simp add: ext_wires_def shape_def)
    have l1: "length (heap s1) = length (heap s) + 3"
      using grows_length [OF g1] by (simp add: ext_wires_def)
    from f p have f': "and_then (len a') (\<lambda>l.
           and_then (WireVector_init WireVector (Some (result_width opc l)) None)
             (\<lambda>r. and_then (add_net (op_net opc a' b r)) (\<lambda>_. ret r))) s1 = (Inr r, s')" by simp
    note r = logicop_final(1) [OF f' w] and g2 = logicop_final(2) [OF f' w]
    have "grows s s' (ext_wires (is_signed (cls (heap s ! a))) n m
                          @ [(WireVector, Some (result_width opc m), None)])
                (ext_nets (is_signed (cls (heap s ! a))) (length (heap s)) a n m
                          @ [op_net opc (length (heap s) + 2) b r])"
      using g1 g2 [unfolded a'] by (rule grows_step) simp_all
    then show ?thesis using r l1 by simp
  qed
  show "r = length (heap s) + 3
           \<and> grows s s' (ext_wires (is_signed (cls (heap s ! b))) m n
                          @ [(WireVector, Some (result_width opc n), None)])
                (ext_nets (is_signed (cls (heap s ! b))) (length (heap s)) b m n
                          @ [op_net opc a (length (heap s) + 2) r])" if lt: "m < n"
  proof -
    from u lt obtain p s1 where e: "and_then (extended b n) (\<lambda>b'. ret (a, b')) s = (Inr p, s1)"
      and f: "(case p of (a, b) \<Rightarrow> and_then (len a) (\<lambda>l.
           and_then (WireVector_init WireVector (Some (result_width opc l)) None)
             (\<lambda>r. and_then (add_net (op_net opc a b r)) (\<lambda>_. ret r)))) s1 = (Inr r, s')"
      by (auto elim: and_then_Inr)
    from e obtain b' where e': "extended b n s = (Inr b', s1)" and p: "p = (a, b')"
      by (auto elim!: and_then_Inr simp: ret_def)
    note b' = extended_grows(1) [OF e' m vb lt] and g1 = extended_grows(2) [OF e' m vb lt]
    have w: "bitwidth (heap s1 ! a) = Some n" using grows_old [OF g1 va] n by simp
    have l1: "length (heap s1) = length (heap s) + 3"
      using grows_length [OF g1] by (simp add: ext_wires_def)
    from f p have f': "and_then (len a) (\<lambda>l.
           and_then (WireVector_init WireVector (Some (result_width opc l)) None)
             (\<lambda>r. and_then (add_net (op_net opc a b' r)) (\<lambda>_. ret r))) s1 = (Inr r, s')" by simp
    note r = logicop_final(1) [OF f' w] and g2 = logicop_final(2) [OF f' w]
    have "grows s s' (ext_wires (is_signed (cls (heap s ! b))) m n
                          @ [(WireVector, Some (result_width opc n), None)])
                (ext_nets (is_signed (cls (heap s ! b))) (length (heap s)) b m n
                          @ [op_net opc a (length (heap s) + 2) r])"
      using g1 g2 [unfolded b'] by (rule grows_step) simp_all
    then show ?thesis using r l1 by simp
  qed
qed

lemma grows_bitwidth_last:
  assumes "grows s s' ws ns" and "ws \<noteq> []" and "r + 1 = length (heap s) + length ws"
  shows "bitwidth (heap s' ! r) = fst (snd (last ws))"
proof -
  have "shape (heap s' ! (length (heap s) + (length ws - 1))) = ws ! (length ws - 1)"
    by (rule grows_new [OF assms(1)]) (use assms(2) in simp)
  moreover have "r = length (heap s) + (length ws - 1)" using assms(2,3) by (cases ws) auto
  ultimately have "shape (heap s' ! r) = last ws" using assms(2) by (simp add: last_conv_nth)
  then show ?thesis by (simp add: shape_def flip: fst_conv snd_conv) (metis fst_conv snd_conv)
qed

subsection \<open>Widths of results\<close>

text \<open>
  Claim C1 as stated fails: multiplying a 2-bit by a 3-bit wire gives a 6-bit result, not
  a 5-bit one.
\<close>

theorem mul_width_counterexample:
  "fst mul_example = Inr 5
   \<and> bitwidth (heap (snd mul_example) ! 0) = Some 2
   \<and> bitwidth (heap (snd mul_example) ! 1) = Some 3
   \<and> bitwidth (heap (snd mul_example) ! 5) = Some 6
   \<and> bitwidth (heap (snd mul_example) ! 5) \<noteq> Some (2 + 3)"
  by code_simp

text \<open>
  Claim C1, amended: a multiply of operands of widths \<open>n\<close> and \<open>m\<close> that succeeds
  gives a result wire of width \<open>2 * max n m\<close>: \<^verbatim>\<open>logicop\<close> first widens the narrower
  operand and then doubles the common width. This is \<open>n + m\<close> when \<open>n = m\<close> and never
  less, so every product of an \<open>n\<close>-bit and an \<open>m\<close>-bit unsigned value fits.
\<close>

theorem mul_width_double_max:
  assumes "WireVector_mul a (Wire b) s = (Inr r, s')"
    and "bitwidth (heap s ! a) = Some n" and "bitwidth (heap s ! b) = Some m"
    and "a < length (heap s)" and "b < length (heap s)"
  shows "bitwidth (heap s' ! r) = Some (2 * max n m)
     \<and> (n = m \<longrightarrow> 2 * max n m = n + m)
     \<and> n + m \<le> 2 * max n m
     \<and> (\<forall>x y :: int. 0 \<le> x \<and> x < 2 ^ nat n \<and> 0 \<le> y \<and> y < 2 ^ nat m \<longrightarrow> x * y < 2 ^ nat (2 * max n m))"
proof -
  have l: "logicop a (Wire b) CHR ''*'' s = (Inr r, s')"
    using assms(1) by (simp add: WireVector_mul_def)
  note g = logicop_grows [OF l assms(2-5)]
  have rw: "\<And>l. result_width CHR ''*'' l = 2 * l" by (simp add: result_width_def)
  have w: "bitwidth (heap s' ! r) = Some (2 * max n m)"
  proof -
    consider "n = m" | "n < m" | "m < n" by linarith
    then show ?thesis
    proof cases
      case 1
      note r = g(1) [OF 1, THEN conjunct1] and gr = g(1) [OF 1, THEN conjunct2]
      from grows_bitwidth_last [OF gr, of r] r 1 show ?thesis by (simp add: rw)
    next
      case 2
      note r = g(2) [OF 2, THEN conjunct1] and gr = g(2) [OF 2, THEN conjunct2]
      from grows_bitwidth_last [OF gr, of r] r 2 show ?thesis by (simp add: rw ext_wires_def)
    next
      case 3
      note r = g(3) [OF 3, THEN conjunct1] and gr = g(3) [OF 3, THEN conjunct2]
      from grows_bitwidth_last [OF gr, of r] r 3 show ?thesis by (simp add: rw ext_wires_def)
    qed
  qed
  have fits: "x * y < 2 ^ nat (2 * max n m)"
    if "0 \<le> x" "x < 2 ^ nat n" "0 \<le> y" "y < 2 ^ nat m" for x y :: int
  proof -
    have "x * y < 2 ^ nat n * 2 ^ nat m"
      using that by (intro mult_strict_mono') simp_all
    also have "\<dots> = 2 ^ (nat n + nat m)" by (simp add: power_add)
    also have "\<dots> \<le> 2 ^ nat (2 * max n m)"
      by (rule power_increasing) auto
    finally show ?thesis .
  qed
  show ?thesis using w fits by auto
qed

theorem mul_width_double_max_witness:
  "WireVector_mul 0 (Wire 1) two_inputs = (Inr 5, snd (WireVector_mul 0 (Wire 1) two_inputs))
   \<and> bitwidth (heap two_inputs ! 0) = Some 2 \<and> bitwidth (heap two_inputs ! 1) = Some 3
   \<and> 0 < length (heap two_inputs) \<and> 1 < length (heap two_inputs)
   \<and> bitwidth (heap (snd (WireVector_mul 0 (Wire 1) two_inputs)) ! 5) = Some 6
   \<and> (3 :: int) * 7 < 2 ^ nat 6"
proof -
  have h: "WireVector_mul 0 (Wire 1) two_inputs = (Inr 5, snd (WireVector_mul 0 (Wire 1) two_inputs))"
    "bitwidth (heap two_inputs ! 0) = Some 2" "bitwidth (heap two_inputs ! 1) = Some 3"
    "0 < length (heap two_inputs)" "1 < length (heap two_inputs)"
    by code_simp+
  from mul_width_double_max [OF h] show ?thesis using h by simp
qed

subsection \<open>Extension to the same width, and a register bound twice\<close>

text \<open>
  Claim C3 at a failing input: a signed 3-bit wire sign-extended (which is what its
  \<^verbatim>\<open>extended\<close> does) to 3 bits. The original wire is returned, but the argument
  \<^verbatim>\<open>self[-1]\<close> was evaluated before \<^verbatim>\<open>_extend_with_bit\<close> saw that nothing is to be
  added: a one-bit wire and a select node reading bit 2 have entered the netlist.
\<close>

theorem sign_extended_same_width_adds_node:
  "bitwidth (heap signed_example ! 0) = Some 3
   \<and> logic (block signed_example) = []
   \<and> extended 0 3 signed_example = sign_extended 0 3 signed_example
   \<and> fst (sign_extended 0 3 signed_example) = Inr 0
   \<and> logic (block (snd (sign_extended 0 3 signed_example))) =
       [\<lparr>op = Some CHR ''s'', op_param = Some [2], args = [0], dests = [1]\<rparr>]
   \<and> length (heap (snd (sign_extended 0 3 signed_example))) = length (heap signed_example) + 1"
  by code_simp

text \<open>
  Claim C4 at a failing input: register \<^verbatim>\<open>r\<close> with \<^verbatim>\<open>r.next <<= a\<close> done, then
  \<^verbatim>\<open>r.next <<= b\<close>. The second binding returns normally and leaves a second connect
  node driving the wire of the next value. The same second binding written
  \<^verbatim>\<open>r.next = b\<close> raises and changes nothing.
\<close>

theorem register_next_bound_twice:
  "cls (heap reg_example ! 0) = Register
   \<and> reg_in (heap reg_example ! 0) = Some 3
   \<and> logic (block reg_example) =
       [\<lparr>op = Some CHR ''r'', op_param = None, args = [3], dests = [0]\<rparr>,
        \<lparr>op = None, op_param = None, args = [1], dests = [3]\<rparr>]
   \<and> fst (Register_next_ilshift 0 (Wire 2) reg_example) = Inr ()
   \<and> logic (block (snd (Register_next_ilshift 0 (Wire 2) reg_example))) =
       [\<lparr>op = Some CHR ''r'', op_param = None, args = [3], dests = [0]\<rparr>,
        \<lparr>op = None, op_param = None, args = [1], dests = [3]\<rparr>,
        \<lparr>op = None, op_param = None, args = [2], dests = [3]\<rparr>]
   \<and> Register_next_set 0 (Wire 2) reg_example = (Inl (PyrtlError []), reg_example)"
  by code_simp

subsection \<open>Bitwise and arithmetic operators\<close>



subsection \<open>One wire and one net for each operator\<close>

lemma WireVector_invert_grows:
  assumes "WireVector_invert a s = (Inr r, s')"
  shows "\<exists>l. bitwidth (heap s ! a) = Some l \<and> r = length (heap s)
     \<and> grows s s' [(WireVector, Some l, None)]
          [\<lparr>op = Some CHR ''~'', op_param = None, args = [a], dests = [r]\<rparr>]"
proof -
  from assms obtain l where l: "bitwidth (heap s ! a) = Some l"
    by (cases "bitwidth (heap s ! a)")
       (auto simp: WireVector_invert_def and_then_def len_def raise_def)
  from assms have "and_then (WireVector_init WireVector (Some l) None)
         (\<lambda>outwire. and_then (add_net \<lparr>op = Some CHR ''~'', op_param = None,
                               args = [a], dests = [outwire]\<rparr>) (\<lambda>_. ret outwire)) s = (Inr r, s')"
    by (simp add: WireVector_invert_def and_then_len [OF l])
  from new_wire_net_grows(1,2) [OF this] l show ?thesis by blast
qed

lemma logicop_IntVal:
  "logicop a (IntVal i) opc s = and_then (Const_init Const i None) (\<lambda>b. logicop a (Wire b) opc) s"
  by (simp add: logicop_def and_then_def ret_def split: prod.splits sum.splits)

text \<open>
  Claim C6 as stated fails: \<^verbatim>\<open>concat\<close> of a single argument returns that argument,
  not a new wire, and leaves the state as it was, so no node is appended.
\<close>

theorem concat_single_counterexample:
  "0 < length (heap example_wires)
   \<and> concat_wv [0] example_wires = (Inr 0, example_wires)"
  by code_simp

text \<open>
  Claim C6, amended: a successful and, or, xor, add, sub or mul of two wires of equal
  width, a successful not, select, or concat of two or more wires allocates exactly one
  wire, the result, whose reference did not exist before (so it is none of the operands),
  and appends exactly one net, with that wire as destination. A binary operator on wires
  of different widths appends the nets of the extension first and its own net last, its
  result again a new wire. \<^verbatim>\<open>concat\<close> of one argument returns the argument and changes
  nothing.
\<close>

theorem operator_fresh_wire_one_net:
  "(logicop a (Wire b) opc s = (Inr r1, s1)
      \<and> bitwidth (heap s ! a) = Some n \<and> bitwidth (heap s ! b) = Some n
      \<and> a < length (heap s) \<and> b < length (heap s) \<longrightarrow>
     r1 = length (heap s) \<and> r1 \<notin> {a, b} \<and> length (heap s1) = length (heap s) + 1
     \<and> logic (block s1) = logic (block s) @ [op_net opc a b r1])
   \<and> (logicop c (Wire d) opc s = (Inr r2, s2)
      \<and> bitwidth (heap s ! c) = Some k \<and> bitwidth (heap s ! d) = Some m \<and> k \<noteq> m
      \<and> c < length (heap s) \<and> d < length (heap s) \<longrightarrow>
     r2 = length (heap s) + 3 \<and> r2 \<notin> {c, d} \<and> length (heap s2) = length (heap s) + 4
     \<and> logic (block s2) = logic (block s)
          @ (if k < m then ext_nets (is_signed (cls (heap s ! c))) (length (heap s)) c k m
             else ext_nets (is_signed (cls (heap s ! d))) (length (heap s)) d m k)
          @ [op_net opc (if k < m then length (heap s) + 2 else c)
                        (if k < m then d else length (heap s) + 2) r2])
   \<and> (WireVector_invert a s = (Inr r3, s3) \<and> a < length (heap s) \<longrightarrow>
     r3 = length (heap s) \<and> r3 \<noteq> a \<and> length (heap s3) = length (heap s) + 1
     \<and> logic (block s3) = logic (block s)
          @ [\<lparr>op = Some CHR ''~'', op_param = None, args = [a], dests = [r3]\<rparr>])
   \<and> (WireVector_getitem a item s = (Inr r4, s4) \<and> a < length (heap s) \<longrightarrow>
     r4 = length (heap s) \<and> r4 \<noteq> a \<and> length (heap s4) = length (heap s) + 1
     \<and> (\<exists>sel. logic (block s4) = logic (block s)
          @ [\<lparr>op = Some CHR ''s'', op_param = Some sel, args = [a], dests = [r4]\<rparr>]))
   \<and> (concat_wv as s = (Inr r5, s5) \<and> 2 \<le> length as \<and> (\<forall>x \<in> set as. x < length (heap s)) \<longrightarrow>
     r5 = length (heap s) \<and> r5 \<notin> set as \<and> length (heap s5) = length (heap s) + 1
     \<and> logic (block s5) = logic (block s)
          @ [\<lparr>op = Some CHR ''c'', op_param = None, args = as, dests = [r5]\<rparr>])
   \<and> concat_wv [a] s = (Inr a, s)"
proof (intro conjI impI)
  show "concat_wv [a] s = (Inr a, s)" by (rule concat_wv_single)
next
  assume h: "logicop a (Wire b) opc s = (Inr r1, s1)
      \<and> bitwidth (heap s ! a) = Some n \<and> bitwidth (heap s ! b) = Some n
      \<and> a < length (heap s) \<and> b < length (heap s)"
  then have "r1 = length (heap s) \<and> grows s s1 [(WireVector, Some (result_width opc n), None)] [op_net opc a b r1]"
    using logicop_grows(1) [of a b opc s r1 s1 n n] by blast
  then have r: "r1 = length (heap s)" and g: "grows s s1 [(WireVector, Some (result_width opc n), None)] [op_net opc a b r1]"
    by blast+
  show "r1 = length (heap s)" by (rule r)
  show "r1 \<notin> {a, b}" using r h by auto
  show "length (heap s1) = length (heap s) + 1" using grows_length [OF g] by simp
  show "logic (block s1) = logic (block s) @ [op_net opc a b r1]" using grows_logic [OF g] .
next
  assume h: "logicop c (Wire d) opc s = (Inr r2, s2)
      \<and> bitwidth (heap s ! c) = Some k \<and> bitwidth (heap s ! d) = Some m \<and> k \<noteq> m
      \<and> c < length (heap s) \<and> d < length (heap s)"
  then have l: "logicop c (Wire d) opc s = (Inr r2, s2)" and wc: "bitwidth (heap s ! c) = Some k"
    and wd: "bitwidth (heap s ! d) = Some m" and ne: "k \<noteq> m"
    and vc: "c < length (heap s)" and vd: "d < length (heap s)" by blast+
  note g = logicop_grows(2,3) [OF l wc wd vc vd]
  have "r2 = length (heap s) + 3 \<and> length (heap s2) = length (heap s) + 4
     \<and> logic (block s2) = logic (block s)
          @ (if k < m then ext_nets (is_signed (cls (heap s ! c))) (length (heap s)) c k m
             else ext_nets (is_signed (cls (heap s ! d))) (length (heap s)) d m k)
          @ [op_net opc (if k < m then length (heap s) + 2 else c)
                        (if k < m then d else length (heap s) + 2) r2]"
  proof (cases "k < m")
    case True
    note r = g(1) [OF True, THEN conjunct1] and gr = g(1) [OF True, THEN conjunct2]
    from r grows_length [OF gr] grows_logic [OF gr] True show ?thesis
      by (simp add: ext_wires_def)
  next
    case False
    then have lt: "m < k" using ne by simp
    note r = g(2) [OF lt, THEN conjunct1] and gr = g(2) [OF lt, THEN conjunct2]
    from r grows_length [OF gr] grows_logic [OF gr] False show ?thesis
      by (simp add: ext_wires_def)
  qed
  then show "r2 = length (heap s) + 3" and "length (heap s2) = length (heap s) + 4"
    and "logic (block s2) = logic (block s)
          @ (if k < m then ext_nets (is_signed (cls (heap s ! c))) (length (heap s)) c k m
             else ext_nets (is_signed (cls (heap s ! d))) (length (heap s)) d m k)
          @ [op_net opc (if k < m then length (heap s) + 2 else c)
                        (if k < m then d else length (heap s) + 2) r2]"
    and "r2 \<notin> {c, d}"
    using vc vd by auto
next
  assume h: "WireVector_invert a s = (Inr r3, s3) \<and> a < length (heap s)"
  then obtain l where r: "r3 = length (heap s)"
    and g: "grows s s3 [(WireVector, Some l, None)]
          [\<lparr>op = Some CHR ''~'', op_param = None, args = [a], dests = [r3]\<rparr>]"
    using WireVector_invert_grows [of a s r3 s3] by blast
  show "r3 = length (heap s)" by (rule r)
  show "r3 \<noteq> a" using r h by simp
  show "length (heap s3) = length (heap s) + 1" using grows_length [OF g] by simp
  show "logic (block s3) = logic (block s)
          @ [\<lparr>op = Some CHR ''~'', op_param = None, args = [a], dests = [r3]\<rparr>]"
    using grows_logic [OF g] .
next
  assume h: "WireVector_getitem a item s = (Inr r4, s4) \<and> a < length (heap s)"
  then obtain sel where r: "r4 = length (heap s)"
    and g: "grows s s4 [(WireVector, Some (int (length sel)), None)]
           [\<lparr>op = Some CHR ''s'', op_param = Some sel, args = [a], dests = [r4]\<rparr>]"
    using WireVector_getitem_grows [of a item s r4 s4] by blast
  show "r4 = length (heap s)" by (rule r)
  show "r4 \<noteq> a" using r h by simp
  show "length (heap s4) = length (heap s) + 1" using grows_length [OF g] by simp
  show "\<exists>sel. logic (block s4) = logic (block s)
          @ [\<lparr>op = Some CHR ''s'', op_param = Some sel, args = [a], dests = [r4]\<rparr>]"
    using grows_logic [OF g] by blast
next
  assume h: "concat_wv as s = (Inr r5, s5) \<and> 2 \<le> length as \<and> (\<forall>x \<in> set as. x < length (heap s))"
  then obtain ws where r: "r5 = length (heap s)"
    and g: "grows s s5 [(WireVector, Some (sum_list ws), None)]
           [\<lparr>op = Some CHR ''c'', op_param = None, args = as, dests = [r5]\<rparr>]"
    using concat_wv_grows [of as s r5 s5] by blast
  show "r5 = length (heap s)" by (rule r)
  show "r5 \<notin> set as" using r h by auto
  show "length (heap s5) = length (heap s) + 1" using grows_length [OF g] by simp
  show "logic (block s5) = logic (block s)
          @ [\<lparr>op = Some CHR ''c'', op_param = None, args = as, dests = [r5]\<rparr>]"
    using grows_logic [OF g] .
qed

theorem operator_fresh_wire_one_net_witness:
  "logicop 0 (Wire 0) CHR ''&'' two_inputs = (Inr 2, snd (logicop 0 (Wire 0) CHR ''&'' two_inputs))
   \<and> logic (block (snd (logicop 0 (Wire 0) CHR ''&'' two_inputs))) =
        logic (block two_inputs) @ [op_net CHR ''&'' 0 0 2]
   \<and> logicop 0 (Wire 1) CHR ''&'' two_inputs = (Inr 5, snd (logicop 0 (Wire 1) CHR ''&'' two_inputs))
   \<and> logic (block (snd (logicop 0 (Wire 1) CHR ''&'' two_inputs))) =
        logic (block two_inputs) @ ext_nets False 2 0 2 3 @ [op_net CHR ''&'' 4 1 5]
   \<and> WireVector_invert 0 two_inputs = (Inr 2, snd (WireVector_invert 0 two_inputs))
   \<and> logic (block (snd (WireVector_invert 0 two_inputs))) =
        logic (block two_inputs) @ [\<lparr>op = Some CHR ''~'', op_param = None, args = [0], dests = [2]\<rparr>]
   \<and> WireVector_getitem 0 (Idx 0) two_inputs = (Inr 2, snd (WireVector_getitem 0 (Idx 0) two_inputs))
   \<and> length (heap (snd (WireVector_getitem 0 (Idx 0) two_inputs))) = length (heap two_inputs) + 1
   \<and> concat_wv [0, 1] two_inputs = (Inr 2, snd (concat_wv [0, 1] two_inputs))
   \<and> logic (block (snd (concat_wv [0, 1] two_inputs))) =
        logic (block two_inputs) @ [\<lparr>op = Some CHR ''c'', op_param = None, args = [0, 1], dests = [2]\<rparr>]
   \<and> concat_wv [0] two_inputs = (Inr 0, two_inputs)"
proof -
  have w: "bitwidth (heap two_inputs ! 0) = Some 2" "bitwidth (heap two_inputs ! 1) = Some 3"
    "0 < length (heap two_inputs)" "1 < length (heap two_inputs)" "(2::int) \<noteq> 3"
    "is_signed (cls (heap two_inputs ! 0)) = False" "length (heap two_inputs) = 2"
    by code_simp+
  have v: "2 \<le> length [0::nat, 1]" "\<forall>x \<in> set [0::nat, 1]. x < length (heap two_inputs)"
    using w(3,4) by simp_all
  have h1: "logicop 0 (Wire 0) CHR ''&'' two_inputs = (Inr 2, snd (logicop 0 (Wire 0) CHR ''&'' two_inputs))"
    by code_simp
  have h2: "logicop 0 (Wire 1) CHR ''&'' two_inputs = (Inr 5, snd (logicop 0 (Wire 1) CHR ''&'' two_inputs))"
    by code_simp
  have h3: "WireVector_invert 0 two_inputs = (Inr 2, snd (WireVector_invert 0 two_inputs))"
    by code_simp
  have h4: "WireVector_getitem 0 (Idx 0) two_inputs = (Inr 2, snd (WireVector_getitem 0 (Idx 0) two_inputs))"
    by code_simp
  have h5: "concat_wv [0, 1] two_inputs = (Inr 2, snd (concat_wv [0, 1] two_inputs))"
    by code_simp
  show ?thesis
    using operator_fresh_wire_one_net [where s = two_inputs and opc = "CHR ''&''"
        and a = 0 and b = 0 and n = 2 and ?r1.0 = 2 and ?s1.0 = "snd (logicop 0 (Wire 0) CHR ''&'' two_inputs)"
        and c = 0 and d = 1 and k = 2 and m = 3 and ?r2.0 = 5
        and ?s2.0 = "snd (logicop 0 (Wire 1) CHR ''&'' two_inputs)"
        and ?r3.0 = 2 and ?s3.0 = "snd (WireVector_invert 0 two_inputs)"
        and item = "Idx 0" and ?r4.0 = 2 and ?s4.0 = "snd (WireVector_getitem 0 (Idx 0) two_inputs)"
        and as = "[0, 1]" and ?r5.0 = 2 and ?s5.0 = "snd (concat_wv [0, 1] two_inputs)"]
      w v h1 h2 h3 h4 h5
    by simp
qed

subsection \<open>Connecting\<close>

lemma py_getitem_low_bits:
  assumes "0 < t" and "t < ob"
  shows "py_getitem [0..ob - 1] (Slice None (Some t) None) = Inr [0..t - 1]"
proof -
  have "map (\<lambda>k. [0..ob - 1] ! nat (int k)) [0..<nat t] = [0..t - 1]"
    using assms by (auto simp: list_eq_iff_nth_eq nth_upto)
  then show ?thesis
    using assms by (simp add: py_getitem_def slice_bound_def range_len_def Let_def)
qed

lemma WireVector_ilshift_unfold:
  assumes "bitwidth (heap s ! self) = Some t"
  shows "WireVector_ilshift self (Wire src) s =
     and_then
       (if (case bitwidth (heap s ! src) of None \<Rightarrow> False | Some ob \<Rightarrow> t < ob)
        then WireVector_getitem src (Slice None (Some t) None) else ret src)
       (\<lambda>o2 s2.
          and_then
            (if (case bitwidth (heap s2 ! o2) of None \<Rightarrow> True | Some ob \<Rightarrow> t > ob)
             then extended o2 t else ret o2)
            (\<lambda>o3. and_then (add_net (connect_net o3 self)) (\<lambda>_. ret self)) s2) s"
  using assms by (simp add: WireVector_ilshift_def and_then_ret connect_net_def)

lemma connect_tail:
  assumes "and_then (add_net (connect_net o3 self)) (\<lambda>_. ret self) s = (Inr r, s')"
  shows "r = self" and "grows s s' [] [connect_net o3 self]"
proof -
  from assms obtain u s1 where a: "add_net (connect_net o3 self) s = (Inr u, s1)"
    and f: "ret self s1 = (Inr r, s')" by (rule and_then_Inr)
  from f show "r = self" by (simp add: ret_def)
  from f have "s' = s1" by (simp add: ret_def)
  then show "grows s s' [] [connect_net o3 self]" using add_net_grows [OF a] by simp
qed

lemma WireVector_ilshift_grows:
  assumes i: "WireVector_ilshift self (Wire src) s = (Inr r, s')"
    and t: "bitwidth (heap s ! self) = Some t" and pos: "0 < t"
    and w: "bitwidth (heap s ! src) = Some w"
    and vs: "src < length (heap s)"
  shows "r = self"
    and "t < w \<Longrightarrow> grows s s' [(WireVector, Some t, None)]
           [\<lparr>op = Some CHR ''s'', op_param = Some [0..t - 1], args = [src], dests = [length (heap s)]\<rparr>,
            connect_net (length (heap s)) self]"
    and "w < t \<Longrightarrow> grows s s' (ext_wires (is_signed (cls (heap s ! src))) w t)
           (ext_nets (is_signed (cls (heap s ! src))) (length (heap s)) src w t
            @ [connect_net (length (heap s) + 2) self])"
    and "w = t \<Longrightarrow> grows s s' [] [connect_net src self]"
proof -
  note u = i [unfolded WireVector_ilshift_unfold [OF t]]
  have A: "r = self \<and> grows s s' [(WireVector, Some t, None)]
           [\<lparr>op = Some CHR ''s'', op_param = Some [0..t - 1], args = [src], dests = [length (heap s)]\<rparr>,
            connect_net (length (heap s)) self]" if lt: "t < w"
  proof -
    from u w lt obtain o2 s2 where g: "WireVector_getitem src (Slice None (Some t) None) s = (Inr o2, s2)"
      and rest: "and_then
            (if (case bitwidth (heap s2 ! o2) of None \<Rightarrow> True | Some ob \<Rightarrow> t > ob)
             then extended o2 t else ret o2)
            (\<lambda>o3. and_then (add_net (connect_net o3 self)) (\<lambda>_. ret self)) s2 = (Inr r, s')"
      by (auto elim: and_then_Inr)
    from WireVector_getitem_grows [OF g] w py_getitem_low_bits [OF pos lt]
    have o2: "o2 = length (heap s)"
      and g1: "grows s s2 [(WireVector, Some (int (length [0..t - 1])), None)]
           [\<lparr>op = Some CHR ''s'', op_param = Some [0..t - 1], args = [src], dests = [o2]\<rparr>]"
      by auto
    have len: "int (length [0..t - 1]) = t" using pos by simp
    have "shape (heap s2 ! (length (heap s) + 0)) = [(WireVector, Some t, None)] ! 0"
      by (rule grows_new) (use g1 len in simp_all)
    then have b2: "bitwidth (heap s2 ! o2) = Some t" using o2 by (simp add: shape_def)
    from rest b2 have "and_then (add_net (connect_net o2 self)) (\<lambda>_. ret self) s2 = (Inr r, s')"
      by (simp add: and_then_ret)
    from connect_tail [OF this] g1 o2 len show ?thesis
      by (auto elim: grows_step)
  qed
  have B: "r = self \<and> grows s s' (ext_wires (is_signed (cls (heap s ! src))) w t)
           (ext_nets (is_signed (cls (heap s ! src))) (length (heap s)) src w t
            @ [connect_net (length (heap s) + 2) self])" if lt: "w < t"
  proof -
    from u w lt have "and_then (extended src t)
            (\<lambda>o3. and_then (add_net (connect_net o3 self)) (\<lambda>_. ret self)) s = (Inr r, s')"
      by (simp add: and_then_ret)
    then obtain o3 s3 where e: "extended src t s = (Inr o3, s3)"
      and c: "and_then (add_net (connect_net o3 self)) (\<lambda>_. ret self) s3 = (Inr r, s')"
      by (rule and_then_Inr)
    note o3 = extended_grows(1) [OF e w vs lt] and g1 = extended_grows(2) [OF e w vs lt]
    from connect_tail [OF c] g1 o3 show ?thesis
      by (auto elim: grows_step)
  qed
  have C: "r = self \<and> grows s s' [] [connect_net src self]" if eq: "w = t"
  proof -
    from u w eq have "and_then (add_net (connect_net src self)) (\<lambda>_. ret self) s = (Inr r, s')"
      by (simp add: and_then_ret)
    from connect_tail [OF this] show ?thesis by simp
  qed
  show "r = self" using A B C by (cases "t < w"; cases "w < t") auto
  show "t < w \<Longrightarrow> grows s s' [(WireVector, Some t, None)]
           [\<lparr>op = Some CHR ''s'', op_param = Some [0..t - 1], args = [src], dests = [length (heap s)]\<rparr>,
            connect_net (length (heap s)) self]" using A by simp
  show "w < t \<Longrightarrow> grows s s' (ext_wires (is_signed (cls (heap s ! src))) w t)
           (ext_nets (is_signed (cls (heap s ! src))) (length (heap s)) src w t
            @ [connect_net (length (heap s) + 2) self])" using B by simp
  show "w = t \<Longrightarrow> grows s s' [] [connect_net src self]" using C by simp
qed

text \<open>
  Claim C2 as stated fails: a signed 3-bit target connected to an unsigned 2-bit source.
  The nets added are those of the zero-extension of the source, driven by a constant 0,
  not those of the sign-extension that is the rule of the target.
\<close>

theorem connect_extension_counterexample:
  "is_signed (cls (heap connect_example ! 0))
   \<and> \<not> is_signed (cls (heap connect_example ! 1))
   \<and> bitwidth (heap connect_example ! 0) = Some 3
   \<and> bitwidth (heap connect_example ! 1) = Some 2
   \<and> fst (ilshift 0 (Wire 1) connect_example) = Inr 0
   \<and> logic (block (snd (ilshift 0 (Wire 1) connect_example))) =
        ext_nets False 2 1 2 3 @ [connect_net 4 0]
   \<and> logic (block (snd (ilshift 0 (Wire 1) connect_example))) \<noteq>
        ext_nets (is_signed (cls (heap connect_example ! 0))) 2 1 2 3 @ [connect_net 4 0]
   \<and> shape (heap (snd (ilshift 0 (Wire 1) connect_example)) ! 2) = (Const, Some 1, Some 0)"
  by code_simp

text \<open>
  Claim C2, amended: a successful \<^verbatim>\<open>target <<= source\<close> between wires of widths \<open>t\<close> and
  \<open>w\<close> returns the target. A wider source is cut to its bits \<open>0 .. t - 1\<close> by a select
  net; a narrower source is extended to \<open>t\<close> bits by the extension rule of the source
  (not of the target); a source of the same width is used as it is. The last net appended
  is the connect net into the target, and it is the only connect net appended.
\<close>

theorem connect_truncates_or_extends:
  assumes "ilshift self (Wire src) s = (Inr r, s')"
    and "bitwidth (heap s ! self) = Some t" and "0 < t"
    and "bitwidth (heap s ! src) = Some w" and "src < length (heap s)"
  shows "r = self
     \<and> (t < w \<longrightarrow> grows s s' [(WireVector, Some t, None)]
           [\<lparr>op = Some CHR ''s'', op_param = Some [0..t - 1], args = [src], dests = [length (heap s)]\<rparr>,
            connect_net (length (heap s)) self])
     \<and> (w < t \<longrightarrow> grows s s' (ext_wires (is_signed (cls (heap s ! src))) w t)
           (ext_nets (is_signed (cls (heap s ! src))) (length (heap s)) src w t
            @ [connect_net (length (heap s) + 2) self]))
     \<and> (w = t \<longrightarrow> grows s s' [] [connect_net src self])
     \<and> (\<exists>ns. logic (block s') = logic (block s) @ ns \<and> length (filter (\<lambda>n. op n = None) ns) = 1)"
proof -
  have i: "WireVector_ilshift self (Wire src) s = (Inr r, s')"
    using assms(1)
    by (simp add: ilshift_def Let_def Input_ilshift_def Const_ilshift_def Register_ilshift_def
          raise_def split: if_splits)
  note g = WireVector_ilshift_grows [OF i assms(2-5)]
  have "\<exists>ns. logic (block s') = logic (block s) @ ns \<and> length (filter (\<lambda>n. op n = None) ns) = 1"
  proof -
    consider "t < w" | "w < t" | "w = t" by linarith
    then show ?thesis
    proof cases
      case 1
      from grows_logic [OF g(2) [OF 1]] show ?thesis by (simp add: connect_net_def)
    next
      case 2
      from grows_logic [OF g(3) [OF 2]] show ?thesis by (simp add: connect_net_def ext_nets_def)
    next
      case 3
      from grows_logic [OF g(4) [OF 3]] show ?thesis by (simp add: connect_net_def)
    qed
  qed
  with g show ?thesis by blast
qed

theorem connect_truncates_or_extends_witness:
  "ilshift 0 (Wire 1) connect_example = (Inr 0, snd (ilshift 0 (Wire 1) connect_example))
   \<and> bitwidth (heap connect_example ! 0) = Some 3 \<and> (0::int) < 3
   \<and> bitwidth (heap connect_example ! 1) = Some 2 \<and> 1 < length (heap connect_example)
   \<and> logic (block (snd (ilshift 0 (Wire 1) connect_example))) =
        logic (block connect_example) @ ext_nets False 2 1 2 3 @ [connect_net 4 0]
   \<and> ilshift 1 (Wire 0) connect_example = (Inr 1, snd (ilshift 1 (Wire 0) connect_example))
   \<and> (0::int) < 2 \<and> 0 < length (heap connect_example)
   \<and> logic (block (snd (ilshift 1 (Wire 0) connect_example))) =
        logic (block connect_example)
        @ [\<lparr>op = Some CHR ''s'', op_param = Some [0..2 - 1], args = [0], dests = [2]\<rparr>, connect_net 2 1]
   \<and> ilshift 0 (Wire 0) connect_example = (Inr 0, snd (ilshift 0 (Wire 0) connect_example))
   \<and> logic (block (snd (ilshift 0 (Wire 0) connect_example))) =
        logic (block connect_example) @ [connect_net 0 0]"
proof -
  have w: "bitwidth (heap connect_example ! 0) = Some 3" "bitwidth (heap connect_example ! 1) = Some 2"
    "0 < length (heap connect_example)" "1 < length (heap connect_example)"
    "is_signed (cls (heap connect_example ! 1)) = False" "length (heap connect_example) = 2"
    by code_simp+
  have p: "(0::int) < 3" "(0::int) < 2" by simp_all
  have h1: "ilshift 0 (Wire 1) connect_example = (Inr 0, snd (ilshift 0 (Wire 1) connect_example))"
    by code_simp
  have h2: "ilshift 1 (Wire 0) connect_example = (Inr 1, snd (ilshift 1 (Wire 0) connect_example))"
    by code_simp
  have h3: "ilshift 0 (Wire 0) connect_example = (Inr 0, snd (ilshift 0 (Wire 0) connect_example))"
    by code_simp
  from connect_truncates_or_extends [OF h1 w(1) p(1) w(2) w(4)] w(5,6)
  have a: "logic (block (snd (ilshift 0 (Wire 1) connect_example))) =
        logic (block connect_example) @ ext_nets False 2 1 2 3 @ [connect_net 4 0]"
    by (auto dest: grows_logic)
  from connect_truncates_or_extends [OF h2 w(2) p(2) w(1) w(3)] w(6)
  have b: "logic (block (snd (ilshift 1 (Wire 0) connect_example))) =
        logic (block connect_example)
        @ [\<lparr>op = Some CHR ''s'', op_param = Some [0..2 - 1], args = [0], dests = [2]\<rparr>, connect_net 2 1]"
    by (auto dest: grows_logic)
  from connect_truncates_or_extends [OF h3 w(1) p(1) w(1) w(3)]
  have c: "logic (block (snd (ilshift 0 (Wire 0) connect_example))) =
        logic (block connect_example) @ [connect_net 0 0]"
    by (auto dest: grows_logic)
  show ?thesis using w p h1 h2 h3 a b c by simp
qed

subsection \<open>Memory blocks\<close>

lemma is_mem_net_mem_net: "is_mem_net (mem_id m) (mem_net m)"
  by (simp add: is_mem_net_def mem_net_def)

lemma filter_remove1_single:
  "filter P xs = [n] \<Longrightarrow> filter P (remove1 n xs) = []"
proof (induction xs)
  case Nil
  then show ?case by simp
next
  case (Cons x xs)
  show ?case
  proof (cases "P x")
    case True
    with Cons.prems have "x = n" "filter P xs = []" by simp_all
    then show ?thesis by simp
  next
    case False
    with Cons.prems have f: "filter P xs = [n]" by simp
    then have "n \<in> set (filter P xs)" by simp
    then have "P n" by simp
    with False have "x \<noteq> n" by auto
    with False Cons.IH [OF f] show ?thesis by simp
  qed
qed

lemma filter_single_mem:
  assumes "filter P xs = [n]"
  shows "n \<in> set xs"
proof -
  from assms have "n \<in> set (filter P xs)" by simp
  then show ?thesis by simp
qed

lemma update_net_Inr:
  assumes u: "update_net m s = (Inr x, m', s')"
    and f: "filter (is_mem_net (mem_id m)) (logic (block s))
              = (case stored_net m of None \<Rightarrow> [] | Some n \<Rightarrow> [n])"
  shows "m' = m\<lparr>stored_net := Some (mem_net m)\<rparr>"
    and "heap s' = heap s"
    and "filter (is_mem_net (mem_id m)) (logic (block s')) = [mem_net m]"
    and "logic (block s') =
           (case stored_net m of None \<Rightarrow> logic (block s) | Some n \<Rightarrow> remove1 n (logic (block s)))
           @ [mem_net m]"
proof -
  define l1 where "l1 = (case stored_net m of None \<Rightarrow> logic (block s)
                         | Some n \<Rightarrow> remove1 n (logic (block s)))"
  define s1 where "s1 = s\<lparr>block := (block s)\<lparr>logic := l1\<rparr>\<rparr>"
  have pre: "(case stored_net m of
              None \<Rightarrow> Inr s
            | Some n \<Rightarrow>
                (if n \<in> set (logic (block s))
                 then Inr (s\<lparr>block := (block s)\<lparr>logic := remove1 n (logic (block s))\<rparr>\<rparr>)
                 else Inl ValueError)) = Inr s1"
  proof (cases "stored_net m")
    case None
    then show ?thesis by (simp add: s1_def l1_def)
  next
    case (Some n)
    with f have "n \<in> set (logic (block s))" by (simp add: filter_single_mem)
    with Some show ?thesis by (simp add: s1_def l1_def)
  qed
  have f1: "filter (is_mem_net (mem_id m)) l1 = []"
    using f by (cases "stored_net m") (simp_all add: l1_def filter_remove1_single)
  from u pre have res: "m' = m\<lparr>stored_net := Some (mem_net m)\<rparr>"
    "s' = s1\<lparr>block := (block s1)\<lparr>logic := logic (block s1) @ [mem_net m]\<rparr>\<rparr>"
    by (auto simp: update_net_def Let_def add_net_def mem_net_def split: if_splits)
  show "m' = m\<lparr>stored_net := Some (mem_net m)\<rparr>" by (rule res)
  show "heap s' = heap s" using res by (simp add: s1_def)
  show "filter (is_mem_net (mem_id m)) (logic (block s')) = [mem_net m]"
    using res f1 by (simp add: s1_def is_mem_net_mem_net)
  show "logic (block s') =
           (case stored_net m of None \<Rightarrow> logic (block s) | Some n \<Rightarrow> remove1 n (logic (block s)))
           @ [mem_net m]"
    using res by (simp add: s1_def l1_def)
qed

lemma flatten_by_index:
  "length ds = length as \<Longrightarrow> length es = length as \<Longrightarrow>
   List.concat (map (\<lambda>(a, d, e). [a, d, e]) (zip as (zip ds es)))
     = List.concat (map (\<lambda>i. [as ! i, ds ! i, es ! i]) [0..<length as])"
proof (induction as arbitrary: ds es)
  case Nil
  then show ?case by simp
next
  case (Cons a as)
  then obtain d ds' e es' where d: "ds = d # ds'" and e: "es = e # es'"
    by (cases ds; cases es) auto
  with Cons.prems have "length ds' = length as" "length es' = length as" by simp_all
  from Cons.IH [OF this] show ?case
    by (simp add: d e map_upt_Suc del: upt_Suc)
qed

lemma mem_net_args:
  "ports_ok m \<Longrightarrow>
   args (mem_net m) = read_addr m
     @ List.concat (map (\<lambda>i. [write_addr m ! i, write_data m ! i, write_enable m ! i])
                      [0..<length (write_addr m)])"
  by (simp add: mem_net_def ports_ok_def flatten_by_index)

lemma update_net_live:
  assumes u: "update_net m1 s1 = (Inr x, m', s')"
    and inv: "mem_inv m s" and l: "logic (block s1) = logic (block s)"
    and id: "mem_id m1 = mem_id m" and st: "stored_net m1 = stored_net m"
    and p: "ports_ok m1"
    and ne: "length (read_addr m1) + length (write_addr m1)
              \<noteq> length (read_addr m) + length (write_addr m)"
  shows "live_net m' s'" and "mem_inv m' s'"
    and "\<And>old. stored_net m = Some old \<Longrightarrow> old \<notin> set (logic (block s'))"
    and "m' = m1\<lparr>stored_net := Some (mem_net m1)\<rparr>"
proof -
  have f: "filter (is_mem_net (mem_id m1)) (logic (block s1))
              = (case stored_net m1 of None \<Rightarrow> [] | Some n \<Rightarrow> [n])"
    using inv l id st by (simp add: mem_inv_def)
  note r = update_net_Inr [OF u f]
  have mn: "mem_net m' = mem_net m1" using r(1) by (simp add: mem_net_def)
  have p': "ports_ok m'" using r(1) p by (simp add: ports_ok_def)
  show m': "m' = m1\<lparr>stored_net := Some (mem_net m1)\<rparr>" by (rule r(1))
  show "live_net m' s'"
    unfolding live_net_def
  proof (intro exI [of _ "mem_net m1"] conjI)
    show "filter (is_mem_net (mem_id m')) (logic (block s')) = [mem_net m1]"
      using r(3) m' by simp
    show "stored_net m' = Some (mem_net m1)" using m' by simp
    show "op (mem_net m1) = Some CHR ''m''" by (simp add: mem_net_def)
    show "op_param (mem_net m1) =
        Some [int (mem_id m'), int (length (read_addr m')), int (length (write_addr m'))]"
      using m' by (simp add: mem_net_def)
    show "args (mem_net m1) = read_addr m'
             @ List.concat (map (\<lambda>i. [write_addr m' ! i, write_data m' ! i, write_enable m' ! i])
                              [0..<length (write_addr m')])"
      using mem_net_args [OF p] m' by simp
    show "dests (mem_net m1) = read_data m'" using m' by (simp add: mem_net_def)
  qed
  show "mem_inv m' s'"
    using p' r(3) m' mn by (simp add: mem_inv_def)
  show "old \<notin> set (logic (block s'))" if o: "stored_net m = Some old" for old
  proof
    assume "old \<in> set (logic (block s'))"
    moreover have oe: "old = mem_net m" using inv o by (simp add: mem_inv_def)
    then have "is_mem_net (mem_id m1) old" using id is_mem_net_mem_net [of m] by simp
    ultimately have "old \<in> set (filter (is_mem_net (mem_id m1)) (logic (block s')))" by simp
    then have "old = mem_net m1" using r(3) by simp
    with oe have "op_param (mem_net m) = op_param (mem_net m1)" by simp
    then show False using ne by (simp add: mem_net_def)
  qed
qed

lemma MemBlock_getitem_Inr:
  assumes g: "MemBlock_getitem m item s = (Inr d, m', s')"
  obtains a s1 where "item = Wire a" and "bitwidth (heap s ! a) = Some (addrwidth m)"
    and "WireVector_init WireVector (Some (mem_bitwidth m)) None s = (Inr d, s1)"
    and "update_net (m\<lparr>read_data := read_data m @ [d], read_addr := read_addr m @ [a]\<rparr>) s1
           = (Inr (), m', s')"
  using g
  by (auto simp: MemBlock_getitem_def split: operand.splits option.splits if_splits prod.splits sum.splits)

lemma MemBlock_setitem_Inr:
  assumes g: "MemBlock_setitem m item v s = (Inr u, m', s')"
  obtains a dw en s1 where "item = Wire a" and "bitwidth (heap s ! a) = Some (addrwidth m)"
    and "(v = Data (Wire dw) \<and> Const_init Const (PyInt 1) (Some (PyInt 1)) s = (Inr en, s1))
         \<or> (v = DataWithEnable (Wire dw) (Wire en) \<and> s1 = s)"
    and "bitwidth (heap s1 ! dw) = Some (mem_bitwidth m)" and "bitwidth (heap s1 ! en) = Some 1"
    and "update_net (m\<lparr>write_data := write_data m @ [dw], write_addr := write_addr m @ [a],
                       write_enable := write_enable m @ [en]\<rparr>) s1 = (Inr u, m', s')"
  using g
  by (auto simp: MemBlock_setitem_def len_operand_def
        split: operand.splits option.splits if_splits prod.splits sum.splits mem_val.splits)

lemma MemBlock_init_inv:
  assumes "MemBlock_init bw aw nm s = (Inr m, s')"
    and "\<forall>n \<in> set (logic (block s)). \<not> is_mem_net (memid_count s) n"
  shows "mem_inv m s'" and "mem_id m = memid_count s" and "memid_count s' = memid_count s + 1"
  using assms
  by (auto simp: MemBlock_init_def Let_def next_memid_def next_tempvar_name_def mem_inv_def
        ports_ok_def filter_empty_conv split: if_splits option.splits)

lemma mem_inv_grows:
  assumes "mem_inv m s" and "grows s s' ws ns" and "\<forall>n \<in> set ns. op n \<noteq> Some CHR ''m''"
  shows "mem_inv m s'"
proof -
  have "filter (is_mem_net (mem_id m)) ns = []"
    using assms(3) by (auto simp: filter_empty_conv is_mem_net_def)
  then show ?thesis using assms(1) grows_logic [OF assms(2)] by (simp add: mem_inv_def)
qed

text \<open>
  Claim C5: when the nets of a memory block in the netlist are its stored net, if any
  (\<open>mem_inv\<close>, which holds for a new block and is kept by every access), a successful
  read or write access appends the port to the lists of the block, in call order, and
  leaves in the netlist exactly one net of the block (\<open>live_net\<close>): the net it stores,
  whose inputs are the read addresses followed by address, data and enable of each write
  port, whose outputs are the read-data wires, and whose parameter is the identity of the
  block with the numbers of read and write ports. The net stored before is gone.
\<close>

theorem memblock_single_net:
  "(mem_inv m s \<and> MemBlock_getitem m item s = (Inr d, m1, s1) \<longrightarrow>
      live_net m1 s1 \<and> mem_inv m1 s1 \<and> mem_id m1 = mem_id m
      \<and> (\<exists>a. item = Wire a \<and> read_addr m1 = read_addr m @ [a])
      \<and> read_data m1 = read_data m @ [d] \<and> d = length (heap s)
      \<and> write_addr m1 = write_addr m \<and> write_data m1 = write_data m
      \<and> write_enable m1 = write_enable m
      \<and> (\<forall>old. stored_net m = Some old \<longrightarrow> old \<notin> set (logic (block s1))))
   \<and> (mem_inv m s \<and> MemBlock_setitem m item v s = (Inr u, m2, s2) \<longrightarrow>
      live_net m2 s2 \<and> mem_inv m2 s2 \<and> mem_id m2 = mem_id m
      \<and> (\<exists>a dw en. item = Wire a \<and> write_addr m2 = write_addr m @ [a]
            \<and> write_data m2 = write_data m @ [dw] \<and> write_enable m2 = write_enable m @ [en]
            \<and> (v = Data (Wire dw) \<and> en = length (heap s)
                 \<or> v = DataWithEnable (Wire dw) (Wire en)))
      \<and> read_addr m2 = read_addr m \<and> read_data m2 = read_data m
      \<and> (\<forall>old. stored_net m = Some old \<longrightarrow> old \<notin> set (logic (block s2))))"
proof (intro conjI impI)
  assume h: "mem_inv m s \<and> MemBlock_getitem m item s = (Inr d, m1, s1)"
  then have inv: "mem_inv m s" and g: "MemBlock_getitem m item s = (Inr d, m1, s1)" by simp_all
  from g obtain a t1 where item: "item = Wire a"
    and w: "WireVector_init WireVector (Some (mem_bitwidth m)) None s = (Inr d, t1)"
    and u: "update_net (m\<lparr>read_data := read_data m @ [d], read_addr := read_addr m @ [a]\<rparr>) t1
           = (Inr (), m1, s1)"
    by (rule MemBlock_getitem_Inr)
  let ?m = "m\<lparr>read_data := read_data m @ [d], read_addr := read_addr m @ [a]\<rparr>"
  have l: "logic (block t1) = logic (block s)"
    using grows_logic [OF WireVector_init_grows(2) [OF w]] by simp
  have p: "ports_ok ?m" using inv by (simp add: mem_inv_def ports_ok_def)
  note r = update_net_live [OF u inv l _ _ p]
  have m1: "m1 = ?m\<lparr>stored_net := Some (mem_net ?m)\<rparr>" by (rule r(4)) simp_all
  show "live_net m1 s1" by (rule r(1)) simp_all
  show "mem_inv m1 s1" by (rule r(2)) simp_all
  show "\<forall>old. stored_net m = Some old \<longrightarrow> old \<notin> set (logic (block s1))"
    using r(3) by simp
  show "mem_id m1 = mem_id m" "read_data m1 = read_data m @ [d]"
    "write_addr m1 = write_addr m" "write_data m1 = write_data m"
    "write_enable m1 = write_enable m"
    using m1 by simp_all
  show "\<exists>a. item = Wire a \<and> read_addr m1 = read_addr m @ [a]" using m1 item by simp
  show "d = length (heap s)" using WireVector_init_grows(1) [OF w] .
next
  assume h: "mem_inv m s \<and> MemBlock_setitem m item v s = (Inr u, m2, s2)"
  then have inv: "mem_inv m s" and g: "MemBlock_setitem m item v s = (Inr u, m2, s2)" by simp_all
  from g obtain a dw en t1 where item: "item = Wire a"
    and v: "(v = Data (Wire dw) \<and> Const_init Const (PyInt 1) (Some (PyInt 1)) s = (Inr en, t1))
         \<or> (v = DataWithEnable (Wire dw) (Wire en) \<and> t1 = s)"
    and u: "update_net (m\<lparr>write_data := write_data m @ [dw], write_addr := write_addr m @ [a],
                       write_enable := write_enable m @ [en]\<rparr>) t1 = (Inr u, m2, s2)"
    by (rule MemBlock_setitem_Inr)
  let ?m = "m\<lparr>write_data := write_data m @ [dw], write_addr := write_addr m @ [a],
                       write_enable := write_enable m @ [en]\<rparr>"
  have l: "logic (block t1) = logic (block s)"
    using v Const_init_grows(2) [of Const "PyInt 1" "Some (PyInt 1)" s en t1] by (auto simp: grows_def)
  have en: "v = Data (Wire dw) \<longrightarrow> en = length (heap s)"
    using v Const_init_grows(1) [of Const "PyInt 1" "Some (PyInt 1)" s en t1] by auto
  have p: "ports_ok ?m" using inv by (simp add: mem_inv_def ports_ok_def)
  note r = update_net_live [OF u inv l _ _ p]
  have m2: "m2 = ?m\<lparr>stored_net := Some (mem_net ?m)\<rparr>" by (rule r(4)) simp_all
  show "live_net m2 s2" by (rule r(1)) simp_all
  show "mem_inv m2 s2" by (rule r(2)) simp_all
  show "\<forall>old. stored_net m = Some old \<longrightarrow> old \<notin> set (logic (block s2))"
    using r(3) by simp
  show "mem_id m2 = mem_id m" "read_addr m2 = read_addr m" "read_data m2 = read_data m"
    using m2 by simp_all
  show "\<exists>a dw en. item = Wire a \<and> write_addr m2 = write_addr m @ [a]
            \<and> write_data m2 = write_data m @ [dw] \<and> write_enable m2 = write_enable m @ [en]
            \<and> (v = Data (Wire dw) \<and> en = length (heap s)
                 \<or> v = DataWithEnable (Wire dw) (Wire en))"
    using m2 item v en by auto
qed

theorem memblock_single_net_witness:
  "mem_inv mem0 mem_state0
   \<and> MemBlock_getitem mem0 (Wire 0) mem_state0 = (Inr 2, mem1, mem_state1)
   \<and> live_net mem1 mem_state1
   \<and> read_addr mem1 = [0] \<and> read_data mem1 = [2]
   \<and> mem_inv mem1 mem_state1
   \<and> MemBlock_setitem mem1 (Wire 0) (Data (Wire 1)) mem_state1 =
        (Inr (), snd (MemBlock_setitem mem1 (Wire 0) (Data (Wire 1)) mem_state1))
   \<and> live_net (fst (snd (MemBlock_setitem mem1 (Wire 0) (Data (Wire 1)) mem_state1)))
        (snd (snd (MemBlock_setitem mem1 (Wire 0) (Data (Wire 1)) mem_state1)))
   \<and> logic (block (snd (snd (MemBlock_setitem mem1 (Wire 0) (Data (Wire 1)) mem_state1)))) =
        [\<lparr>op = Some CHR ''m'', op_param = Some [0, 1, 1], args = [0, 0, 1, 3], dests = [2]\<rparr>]"
proof -
  have i: "MemBlock_init 8 4 (Some ''mem'') mem_state = (Inr mem0, mem_state0)"
    by code_simp
  have e: "\<forall>n \<in> set (logic (block mem_state)). \<not> is_mem_net (memid_count mem_state) n"
    by code_simp
  have inv0: "mem_inv mem0 mem_state0" by (rule MemBlock_init_inv(1) [OF i e])
  have g: "MemBlock_getitem mem0 (Wire 0) mem_state0 = (Inr 2, mem1, mem_state1)"
    by code_simp
  from memblock_single_net [of mem0 mem_state0 "Wire 0" 2 mem1 mem_state1] inv0 g
  have a: "live_net mem1 mem_state1" "mem_inv mem1 mem_state1" by blast+
  let ?w = "MemBlock_setitem mem1 (Wire 0) (Data (Wire 1)) mem_state1"
  have w: "?w = (Inr (), fst (snd ?w), snd (snd ?w))" by code_simp
  from memblock_single_net [of mem1 mem_state1 "Wire 0" _ _ _ "Data (Wire 1)" "()" "fst (snd ?w)" "snd (snd ?w)"]
    a(2) w
  have b: "live_net (fst (snd ?w)) (snd (snd ?w))" by blast
  have c: "read_addr mem1 = [0]" "read_data mem1 = [2]"
    "logic (block (snd (snd ?w))) =
        [\<lparr>op = Some CHR ''m'', op_param = Some [0, 1, 1], args = [0, 0, 1, 3], dests = [2]\<rparr>]"
    by code_simp+
  show ?thesis using inv0 g a b c w by simp
qed

end
